theory Spec2Isabelle
  imports Main "HOL-Library.Word"
begin

section \<open>The try-on client adapter (src/services/aiService.js)\<close>

text \<open>
  The file under \<^verbatim>\<open>src/services/aiService.js\<close> holds two listings of the same module.
  The first (lines 1-189) keeps a module-level \<^verbatim>\<open>cachedClient\<close>, obtains it through
  \<^verbatim>\<open>getClient\<close> and sends the images as in-memory blobs. The second (lines 190-354) has
  no cache, connects on every call and sends the images as temporary files that a
  \<^verbatim>\<open>finally\<close> block removes. Both are embedded: the first keeps the source's names, the
  functions of the second carry the suffix \<open>_tempfile\<close>.

  Every call of a collaborator (\<^verbatim>\<open>@gradio/client\<close>, \<^verbatim>\<open>axios\<close>, \<^verbatim>\<open>fs\<close>,
  \<^verbatim>\<open>Date.now\<close>) appends an event to a trace, and the collaborator's answer is an
  arbitrary function of the trace up to and including that call. Calls of
  \<^verbatim>\<open>console.log\<close>, \<^verbatim>\<open>console.error\<close> and \<^verbatim>\<open>console.warn\<close> neither fail nor
  change a result and are left out. What is kept of them is the argument expressions that
  can raise: the one of line 117 (and 273) as \<open>result_structure\<close>, and the readings of
  \<^verbatim>\<open>.message\<close> on a caught value (lines 54 and 333) as \<open>message\<close>.
\<close>

subsection \<open>Values\<close>

type_synonym bytes = "8 word list"

text \<open>A \<^verbatim>\<open>Blob\<close>: its bytes and its media type.\<close>

datatype blob = Blob (arrayBuffer: bytes) (blob_type: string)

text \<open>
  What the remote call may hand back: the values of JSON, and a \<^verbatim>\<open>Blob\<close>. Numbers are
  only tested for truthiness and for their \<^verbatim>\<open>typeof\<close>, so an integer payload stands for
  them (JSON has no NaN). An object is its list of own properties; a key is looked up with
  \<open>map_of\<close>.
\<close>

datatype js_value =
    JUndefined
  | JNull
  | JBool bool
  | JNum int
  | JStr string
  | JArr "js_value list"
  | JObj "(string \<times> js_value) list"
  | JBlob blob

text \<open>
  What a \<^verbatim>\<open>throw\<close> raises and what a promise is rejected with. JavaScript lets any
  value be thrown: \<open>Error m\<close> is an \<^verbatim>\<open>Error\<close> object with the message \<open>m\<close>
  (\<^verbatim>\<open>new Error(m)\<close>, an error of \<^verbatim>\<open>axios\<close> or of \<^verbatim>\<open>fs\<close>, a \<^verbatim>\<open>TypeError\<close> of the
  engine), and \<open>Thrown v\<close> is any other value \<open>v\<close>: a status object of the remote
  call, a string, and also \<^verbatim>\<open>null\<close> or \<^verbatim>\<open>undefined\<close>.
\<close>

datatype js_error = Error string | Thrown js_value

text \<open>
  A \<^verbatim>\<open>TypeError\<close> that the engine raises is an \<^verbatim>\<open>Error\<close> object. The wording of
  its messages below is V8's; the properties use it only where they evaluate a run.
\<close>

definition TypeError :: "string \<Rightarrow> js_error" where
  "TypeError m = Error m"

datatype client = Client nat

text \<open>The argument of \<^verbatim>\<open>handle_file\<close>, which wraps it for upload.\<close>

datatype file_data = handle_file_blob blob | handle_file_path string

datatype arg =
    ImageEditor (background: file_data) (layers: "file_data list") (composite: "file_data option")
  | File file_data
  | Text string
  | Flag bool
  | Number int

datatype payload = Positional "arg list" | Named "(string \<times> arg) list"

subsection \<open>Collaborators\<close>

datatype event =
    ClientConnect string "string option"
  | ClientDuplicate string "string option" nat bool
  | AxiosGet js_value
  | Predict client string payload
  | ReadFileSync js_value
  | WriteFileSync string bytes
  | UnlinkSync string
  | DateNow

text \<open>
  How a call of \<^verbatim>\<open>fs.writeFileSync(path, data)\<close> ends. It opens the file, which creates
  or truncates it, then writes, then closes. It can fail before the file is open
  (\<open>OpenFailed\<close>: no such directory, no permission), and then the files are as they
  were; or after (\<open>WriteFailed e n\<close>: the disk is full, the device fails), and then the
  file exists and holds the \<open>n\<close> bytes that were written before the exception \<open>e\<close>.
\<close>

datatype write_outcome = Written | OpenFailed js_error | WriteFailed js_error nat

record env =
  HUGGINGFACE_API_KEY :: "string option"
  tmpdir :: string
  connect_result :: "event list \<Rightarrow> js_error + client"
  duplicate_result :: "event list \<Rightarrow> js_error + client"
  get_result :: "event list \<Rightarrow> js_error + bytes"
  predict_result :: "event list \<Rightarrow> js_error + js_value"
  readFile_result :: "event list \<Rightarrow> js_error + bytes"
  writeFile_outcome :: "event list \<Rightarrow> write_outcome"
  unlink_error :: "event list \<Rightarrow> js_error option"
  clock :: "event list \<Rightarrow> int"

text \<open>
  The world outside the module: the trace of collaborator calls and the files on disk. The
  first listing adds its module variable \<^verbatim>\<open>cachedClient\<close> (line 13). A computation
  takes the state and returns the new one with either the exception it raised (\<open>Inl\<close>)
  or its value (\<open>Inr\<close>); \<open>try_bind\<close> is the sequence of two statements inside one
  \<^verbatim>\<open>try\<close>, left at the first exception.
\<close>

record world =
  trace :: "event list"
  files :: "string \<rightharpoonup> bytes"

record state = world +
  cachedClient :: "client option"

type_synonym ('s, 'a) js = "'s \<Rightarrow> (js_error + 'a) \<times> 's"

definition try_bind :: "('s, 'a) js \<Rightarrow> ('a \<Rightarrow> ('s, 'b) js) \<Rightarrow> ('s, 'b) js" where
  "try_bind m f s = (case m s of (Inl e, s') \<Rightarrow> (Inl e, s') | (Inr x, s') \<Rightarrow> f x s')"

text \<open>\<^verbatim>\<open>try { body } catch (e) { handler }\<close>.\<close>

definition try_catch :: "('s, 'a) js \<Rightarrow> (js_error \<Rightarrow> ('s, 'a) js) \<Rightarrow> ('s, 'a) js" where
  "try_catch body handler s =
     (case body s of (Inl e, s') \<Rightarrow> handler e s' | (Inr x, s') \<Rightarrow> (Inr x, s'))"

definition lift :: "js_error + 'a \<Rightarrow> ('s, 'a) js" where
  "lift r s = (r, s)"

definition emit :: "event \<Rightarrow> 'a world_scheme \<Rightarrow> 'a world_scheme" where
  "emit e s = s\<lparr>trace := trace s @ [e]\<rparr>"

definition SPACE_ID :: string where
  "SPACE_ID = ''yisol/IDM-VTON''"

definition Client_connect :: "env \<Rightarrow> string \<Rightarrow> string option \<Rightarrow> ('a world_scheme, client) js" where
  "Client_connect env space token s =
     (let s' = emit (ClientConnect space token) s in (connect_result env (trace s'), s'))"

definition Client_duplicate ::
  "env \<Rightarrow> string \<Rightarrow> string option \<Rightarrow> nat \<Rightarrow> bool \<Rightarrow> ('a world_scheme, client) js" where
  "Client_duplicate env space token timeout private s =
     (let s' = emit (ClientDuplicate space token timeout private) s
      in (duplicate_result env (trace s'), s'))"

text \<open>\<^verbatim>\<open>axios.get(url, { responseType: 'arraybuffer' })\<close>, giving \<^verbatim>\<open>response.data\<close>.\<close>

definition axios_get :: "env \<Rightarrow> js_value \<Rightarrow> ('a world_scheme, bytes) js" where
  "axios_get env url s = (let s' = emit (AxiosGet url) s in (get_result env (trace s'), s'))"

definition client_predict :: "env \<Rightarrow> client \<Rightarrow> string \<Rightarrow> payload \<Rightarrow> ('a world_scheme, js_value) js" where
  "client_predict env c endpoint args s =
     (let s' = emit (Predict c endpoint args) s in (predict_result env (trace s'), s'))"

text \<open>
  \<^verbatim>\<open>fs.readFileSync(path)\<close> is called with whatever the remote answer names, so its
  result is the environment's, like that of a fetch. The map \<open>files\<close> follows what this
  module itself writes and deletes, and \<^verbatim>\<open>fs.existsSync\<close> reads it. A write or a
  deletion fails when the environment says so; a deletion that fails leaves the files as
  they were, a write that fails leaves what its outcome says.
\<close>

definition readFileSync :: "env \<Rightarrow> js_value \<Rightarrow> ('a world_scheme, bytes) js" where
  "readFileSync env p s = (let s' = emit (ReadFileSync p) s in (readFile_result env (trace s'), s'))"

definition writeFileSync :: "env \<Rightarrow> string \<Rightarrow> bytes \<Rightarrow> ('a world_scheme, unit) js" where
  "writeFileSync env p d s =
     (let s' = emit (WriteFileSync p d) s
      in case writeFile_outcome env (trace s') of
           Written \<Rightarrow> (Inr (), s'\<lparr>files := (files s')(p \<mapsto> d)\<rparr>)
         | OpenFailed e \<Rightarrow> (Inl e, s')
         | WriteFailed e n \<Rightarrow> (Inl e, s'\<lparr>files := (files s')(p \<mapsto> take n d)\<rparr>))"

definition existsSync :: "string \<Rightarrow> 'a world_scheme \<Rightarrow> bool" where
  "existsSync p s = (files s p \<noteq> None)"

definition unlinkSync :: "env \<Rightarrow> string \<Rightarrow> ('a world_scheme, unit) js" where
  "unlinkSync env p s =
     (let s' = emit (UnlinkSync p) s
      in case unlink_error env (trace s') of
           Some e \<Rightarrow> (Inl e, s')
         | None \<Rightarrow> (Inr (), s'\<lparr>files := (files s')(p := None)\<rparr>))"

definition Date_now :: "env \<Rightarrow> 'a world_scheme \<Rightarrow> int \<times> 'a world_scheme" where
  "Date_now env s = (let s' = emit DateNow s in (clock env (trace s'), s'))"

subsection \<open>JavaScript's reading of values\<close>

fun truthy :: "js_value \<Rightarrow> bool" where
  "truthy JUndefined = False"
| "truthy JNull = False"
| "truthy (JBool b) = b"
| "truthy (JNum n) = (n \<noteq> 0)"
| "truthy (JStr s) = (s \<noteq> [])"
| "truthy (JArr _) = True"
| "truthy (JObj _) = True"
| "truthy (JBlob _) = True"

text \<open>
  \<^verbatim>\<open>v.k\<close> for one of the keys the module reads (\<^verbatim>\<open>data\<close>, \<^verbatim>\<open>url\<close>, \<^verbatim>\<open>path\<close>,
  \<^verbatim>\<open>message\<close>): a \<^verbatim>\<open>TypeError\<close> on \<^verbatim>\<open>null\<close> and \<^verbatim>\<open>undefined\<close>, the own property
  of an object, and \<^verbatim>\<open>undefined\<close> on every other value, none of which has such a
  property.
\<close>

definition own_prop :: "(string \<times> js_value) list \<Rightarrow> string \<Rightarrow> js_value" where
  "own_prop kvs k = (case map_of kvs k of Some v \<Rightarrow> v | None \<Rightarrow> JUndefined)"

fun get_prop :: "js_value \<Rightarrow> string \<Rightarrow> js_error + js_value" where
  "get_prop JUndefined k =
     Inl (TypeError (''Cannot read properties of undefined (reading '' @ [CHR 0x27] @ k @ [CHR 0x27] @ '')''))"
| "get_prop JNull k =
     Inl (TypeError (''Cannot read properties of null (reading '' @ [CHR 0x27] @ k @ [CHR 0x27] @ '')''))"
| "get_prop (JObj kvs) k = Inr (own_prop kvs k)"
| "get_prop _ k = Inr JUndefined"

text \<open>\<^verbatim>\<open>v && v.k\<close>: the value itself when it is falsy, the property otherwise.\<close>

definition and_prop :: "js_value \<Rightarrow> string \<Rightarrow> js_value" where
  "and_prop v k = (if truthy v then (case get_prop v k of Inr x \<Rightarrow> x | Inl _ \<Rightarrow> JUndefined) else v)"

text \<open>
  The argument of the \<^verbatim>\<open>console.log\<close> of line 117 (and 273):
  \<^verbatim>\<open>result.data?.map(d => typeof d === 'object' ? Object.keys(d) : typeof d)\<close>.
  Nothing is called on a missing \<^verbatim>\<open>data\<close>; a \<^verbatim>\<open>data\<close> that is not an array has no
  \<^verbatim>\<open>map\<close> to call; and \<^verbatim>\<open>typeof null\<close> is \<^verbatim>\<open>'object'\<close>, so \<^verbatim>\<open>Object.keys\<close> is
  applied to a \<^verbatim>\<open>null\<close> element and raises.
\<close>

fun result_structure :: "js_value \<Rightarrow> js_error + unit" where
  "result_structure JUndefined = Inr ()"
| "result_structure JNull = Inr ()"
| "result_structure (JArr ds) =
     (if JNull \<in> set ds then Inl (TypeError ''Cannot convert undefined or null to object'')
      else Inr ())"
| "result_structure _ = Inl (TypeError ''result.data?.map is not a function'')"

text \<open>\<^verbatim>\<open>data[0]\<close>.\<close>

fun index0 :: "js_value \<Rightarrow> js_error + js_value" where
  "index0 JUndefined = Inl (TypeError ''Cannot read properties of undefined (reading '0')'')"
| "index0 JNull = Inl (TypeError ''Cannot read properties of null (reading '0')'')"
| "index0 (JArr ds) = Inr (case ds of [] \<Rightarrow> JUndefined | d # _ \<Rightarrow> d)"
| "index0 (JStr s) = Inr (case s of [] \<Rightarrow> JUndefined | c # _ \<Rightarrow> JStr [c])"
| "index0 (JObj kvs) = Inr (own_prop kvs ''0'')"
| "index0 _ = Inr JUndefined"

text \<open>\<^verbatim>\<open>typeof v === 'string' && v.startsWith('http')\<close>.\<close>

fun http_string :: "js_value \<Rightarrow> bool" where
  "http_string (JStr s) = (take 4 s = ''http'')"
| "http_string _ = False"

text \<open>
  \<^verbatim>\<open>error.message\<close>, which every handler of the module reads on the value it has
  caught (lines 54, 153, 182, 309, 333 and 347). On an \<^verbatim>\<open>Error\<close> object it is the
  message; on any other value it is the property of that name, so the reading itself
  raises a \<^verbatim>\<open>TypeError\<close> when the value caught is \<^verbatim>\<open>null\<close> or \<^verbatim>\<open>undefined\<close>.
\<close>

fun message :: "js_error \<Rightarrow> js_error + js_value" where
  "message (Error m) = Inr (JStr m)"
| "message (Thrown v) = get_prop v ''message''"

subsection \<open>The result normalizer (lines 123-141 and 278-297)\<close>

definition normalizeOutput :: "env \<Rightarrow> js_value \<Rightarrow> ('a world_scheme, bytes) js" where
  "normalizeOutput env outputImage =
     (if truthy (and_prop outputImage ''url'') then
        axios_get env (and_prop outputImage ''url'')
      else if truthy (and_prop outputImage ''path'') then
        readFileSync env (and_prop outputImage ''path'')
      else if http_string outputImage then
        axios_get env outputImage
      else case outputImage of
          JBlob b \<Rightarrow> lift (Inr (arrayBuffer b))
        | _ \<Rightarrow> lift (Inl (Error ''Unexpected output format from Gradio client'')))"

subsection \<open>The session handle (lines 32-66)\<close>

text \<open>\<^verbatim>\<open>!!process.env.HUGGINGFACE_API_KEY\<close>: an unset and an empty variable are both falsy.\<close>

definition hasToken :: "env \<Rightarrow> bool" where
  "hasToken env = (case HUGGINGFACE_API_KEY env of Some k \<Rightarrow> k \<noteq> [] | None \<Rightarrow> False)"

definition set_cachedClient :: "client \<Rightarrow> (state, client) js" where
  "set_cachedClient c s = (Inr c, s\<lparr>cachedClient := Some c\<rparr>)"

text \<open>
  The handler of the direct connection (line 54) prints \<^verbatim>\<open>connectError.message\<close>; what
  follows the \<^verbatim>\<open>try\<close> statement (lines 57-65) runs when that handler has returned.
\<close>

definition getClient :: "env \<Rightarrow> (state, client) js" where
  "getClient env s =
     (case cachedClient s of
        Some c \<Rightarrow> (Inr c, s)
      | None \<Rightarrow>
          if \<not> hasToken env then
            (Inl (Error ''HUGGINGFACE_API_KEY is required for IDM-VTON''), s)
          else
            try_catch
              (try_bind (Client_connect env SPACE_ID (HUGGINGFACE_API_KEY env)) set_cachedClient)
              (\<lambda>connectError.
                 try_bind (lift (message connectError)) (\<lambda>_.
                 try_bind (Client_duplicate env SPACE_ID (HUGGINGFACE_API_KEY env) 300 True)
                   set_cachedClient))
              s)"

subsection \<open>The try-on operation, first listing (lines 23-26 and 73-171)\<close>

text \<open>
  The two outcomes. The \<^verbatim>\<open>error\<close> field holds what line 167 computes, which is a
  string for every \<^verbatim>\<open>Error\<close> object and whatever truthy value the \<^verbatim>\<open>message\<close>
  property holds for another value.
\<close>

datatype tryon_result =
    Success (imageBuffer: bytes) (processingTime: int)
  | Failure (error: js_value) (processingTime: int)

definition fetchImageBlob :: "env \<Rightarrow> string \<Rightarrow> ('a world_scheme, blob) js" where
  "fetchImageBlob env url =
     try_bind (axios_get env (JStr url)) (\<lambda>data. lift (Inr (Blob data ''image/jpeg'')))"

text \<open>
  Lines 115-147, which lines 271-303 repeat: the clock is read as soon as the remote call
  has returned, then the first output is taken and normalized.
\<close>

definition read_result :: "env \<Rightarrow> int \<Rightarrow> js_value \<Rightarrow> ('a world_scheme, tryon_result) js" where
  "read_result env startTime result s =
     (let (t, s1) = Date_now env s;
          elapsed = t - startTime
      in try_bind (lift (get_prop result ''data'')) (\<lambda>data.
         try_bind (lift (result_structure data)) (\<lambda>_.
         try_bind (lift (index0 data)) (\<lambda>outputImage.
         try_bind (normalizeOutput env outputImage) (\<lambda>outputBuffer.
         lift (Inr (Success outputBuffer elapsed)))))) s1)"

text \<open>\<^verbatim>\<open>error.message || 'Try-on processing failed'\<close>.\<close>

definition message_or :: "js_value \<Rightarrow> string \<Rightarrow> js_value" where
  "message_or m d = (if truthy m then m else JStr d)"

definition try_block :: "env \<Rightarrow> string \<Rightarrow> string \<Rightarrow> int \<Rightarrow> (state, tryon_result) js" where
  "try_block env personImageUrl garmentImageUrl startTime =
     try_bind (getClient env) (\<lambda>client.
     try_bind (fetchImageBlob env personImageUrl) (\<lambda>personBlob.
     try_bind (fetchImageBlob env garmentImageUrl) (\<lambda>garmentBlob.
     try_bind (client_predict env client ''/tryon''
                 (Positional
                    [ImageEditor (handle_file_blob personBlob) [] None,
                     File (handle_file_blob garmentBlob),
                     Text ''A stylish garment'',
                     Flag True,
                     Flag False,
                     Number 30,
                     Number 42]))
       (read_result env startTime))))"

text \<open>
  Lines 149-170: the handler of the first listing. It reads \<^verbatim>\<open>error.message\<close> first
  (line 153), before it resets the cache and reads the clock, so on a value that has no
  properties to read it raises and does neither. \<^verbatim>\<open>error.response\<close> is read for the
  console only, and its \<^verbatim>\<open>status\<close> and \<^verbatim>\<open>data\<close> only when it is truthy, which raises
  nothing once \<^verbatim>\<open>error.message\<close> has been read.
\<close>

definition catch_block :: "env \<Rightarrow> int \<Rightarrow> js_error \<Rightarrow> (state, tryon_result) js" where
  "catch_block env startTime err =
     try_bind (lift (message err)) (\<lambda>m s.
       let s1 = s\<lparr>cachedClient := None\<rparr>;
           (t, s2) = Date_now env s1
       in (Inr (Failure (message_or m ''Try-on processing failed'') (t - startTime)), s2))"

definition performTryOn :: "env \<Rightarrow> string \<Rightarrow> string \<Rightarrow> (state, tryon_result) js" where
  "performTryOn env personImageUrl garmentImageUrl s =
     (let (startTime, s1) = Date_now env s
      in try_catch (try_block env personImageUrl garmentImageUrl startTime)
           (catch_block env startTime) s1)"

subsection \<open>The status probe (lines 176-184)\<close>



subsection \<open>The try-on operation, second listing (lines 209-215 and 222-336)\<close>

text \<open>The decimal text of a number, as a template literal prints \<^verbatim>\<open>Date.now()\<close>.\<close>

function show_nat :: "nat \<Rightarrow> string" where
  "show_nat n =
     (if n < 10 then [''0123456789'' ! n]
      else show_nat (n div 10) @ [''0123456789'' ! (n mod 10)])"
  by pat_completeness auto
termination
  by (relation "measure id") auto

declare show_nat.simps [simp del]

definition show_int :: "int \<Rightarrow> string" where
  "show_int i = (if i < 0 then ''-'' @ show_nat (nat (- i)) else show_nat (nat i))"

text \<open>
  \<^verbatim>\<open>path.join\<close> of two strings, as Node has it for POSIX paths: the non-empty
  arguments are joined with a separator and the result is normalized. Normalizing drops
  empty segments and \<^verbatim>\<open>.\<close> segments and resolves each \<^verbatim>\<open>..\<close> against the segment
  before it; a relative path keeps the \<^verbatim>\<open>..\<close> segments that lead above its start, an
  absolute one drops them. The result is never the empty string.
\<close>

fun split_on :: "char \<Rightarrow> string \<Rightarrow> string list" where
  "split_on c [] = [[]]"
| "split_on c (x # xs) =
     (if x = c then [] # split_on c xs
      else (case split_on c xs of seg # segs \<Rightarrow> (x # seg) # segs | [] \<Rightarrow> [[x]]))"

text \<open>The segments resolved so far are kept with the last one first.\<close>

fun normalize_segments :: "bool \<Rightarrow> string list \<Rightarrow> string list \<Rightarrow> string list" where
  "normalize_segments allowAboveRoot res [] = rev res"
| "normalize_segments allowAboveRoot res (seg # segs) =
     (if seg = [] \<or> seg = ''.'' then normalize_segments allowAboveRoot res segs
      else if seg = ''..'' then
        (case res of
           lastSegment # rest \<Rightarrow>
             if lastSegment \<noteq> ''..'' then normalize_segments allowAboveRoot rest segs
             else normalize_segments allowAboveRoot (if allowAboveRoot then seg # res else res) segs
         | [] \<Rightarrow> normalize_segments allowAboveRoot (if allowAboveRoot then [seg] else []) segs)
      else normalize_segments allowAboveRoot (seg # res) segs)"

fun join_segments :: "string list \<Rightarrow> string" where
  "join_segments [] = []"
| "join_segments [seg] = seg"
| "join_segments (seg # segs) = seg @ ''/'' @ join_segments segs"

definition path_normalize :: "string \<Rightarrow> string" where
  "path_normalize path =
     (if path = [] then ''.''
      else
        let isAbsolute = (hd path = CHR ''/'');
            trailingSeparator = (last path = CHR ''/'');
            res = join_segments (normalize_segments (\<not> isAbsolute) [] (split_on (CHR ''/'') path))
        in if res = [] then (if isAbsolute then ''/'' else if trailingSeparator then ''./'' else ''.'')
           else (if isAbsolute then ''/'' else []) @ res @ (if trailingSeparator then ''/'' else []))"

definition path_join :: "string \<Rightarrow> string \<Rightarrow> string" where
  "path_join dir name =
     (if dir = [] \<and> name = [] then ''.''
      else if dir = [] then path_normalize name
      else if name = [] then path_normalize dir
      else path_normalize (dir @ ''/'' @ name))"

definition downloadToTempFile :: "env \<Rightarrow> string \<Rightarrow> string \<Rightarrow> ('a world_scheme, string) js" where
  "downloadToTempFile env url prefix =
     try_bind (axios_get env (JStr url)) (\<lambda>data s.
       let tempDir = tmpdir env;
           (t, s1) = Date_now env s;
           tempPath = path_join tempDir (prefix @ ''_'' @ show_int t @ ''.jpg'')
       in try_bind (writeFileSync env tempPath data) (\<lambda>_. lift (Inr tempPath)) s1)"

text \<open>
  The body of the \<^verbatim>\<open>try\<close> (lines 229-303), with the two path variables as they stand
  when it is left: each is assigned when its download has returned.
\<close>

definition try_block_tempfile ::
  "env \<Rightarrow> string \<Rightarrow> string \<Rightarrow> int \<Rightarrow> world
     \<Rightarrow> ((js_error + tryon_result) \<times> string option \<times> string option) \<times> world" where
  "try_block_tempfile env personImageUrl garmentImageUrl startTime s =
     (case Client_connect env SPACE_ID (HUGGINGFACE_API_KEY env) s of
        (Inl e, s1) \<Rightarrow> ((Inl e, None, None), s1)
      | (Inr client, s1) \<Rightarrow>
     (case downloadToTempFile env personImageUrl ''person'' s1 of
        (Inl e, s2) \<Rightarrow> ((Inl e, None, None), s2)
      | (Inr personTempPath, s2) \<Rightarrow>
     (case downloadToTempFile env garmentImageUrl ''garment'' s2 of
        (Inl e, s3) \<Rightarrow> ((Inl e, Some personTempPath, None), s3)
      | (Inr garmentTempPath, s3) \<Rightarrow>
     (case try_bind (client_predict env client ''/tryon''
                       (Named
                          [(''dict'', ImageEditor (handle_file_path personTempPath) [] None),
                           (''garm_img'', File (handle_file_path garmentTempPath)),
                           (''garment_des'', Text ''A stylish garment''),
                           (''is_checked'', Flag True),
                           (''is_checked_crop'', Flag False),
                           (''denoise_steps'', Number 30),
                           (''seed'', Number 42)]))
             (read_result env startTime) s3 of
        (r, s4) \<Rightarrow> ((r, Some personTempPath, Some garmentTempPath), s4)))))"

text \<open>
  Lines 305-322: the handler of the second listing, which has no cache to reset. It too
  reads \<^verbatim>\<open>error.message\<close> first (line 309).
\<close>

definition catch_block_tempfile :: "env \<Rightarrow> int \<Rightarrow> js_error \<Rightarrow> (world, tryon_result) js" where
  "catch_block_tempfile env startTime err =
     try_bind (lift (message err)) (\<lambda>m s.
       let (t, s1) = Date_now env s
       in (Inr (Failure (message_or m ''Try-on processing failed'') (t - startTime)), s1))"

text \<open>
  One guarded deletion of the \<^verbatim>\<open>finally\<close> block:
  \<^verbatim>\<open>if (p && fs.existsSync(p)) fs.unlinkSync(p)\<close>.
\<close>

definition unlink_if_exists :: "env \<Rightarrow> string option \<Rightarrow> ('a world_scheme, unit) js" where
  "unlink_if_exists env tempPath s =
     (case tempPath of
        Some p \<Rightarrow> if p \<noteq> [] \<and> existsSync p s then unlinkSync env p s else (Inr (), s)
      | None \<Rightarrow> (Inr (), s))"

text \<open>
  Lines 323-335. The two deletions stand in one \<^verbatim>\<open>try\<close>, so a deletion that throws
  skips the one after it; the \<^verbatim>\<open>catch\<close> only warns on the console, with
  \<^verbatim>\<open>cleanupError.message\<close> (line 333).
\<close>

definition cleanup :: "env \<Rightarrow> string option \<Rightarrow> string option \<Rightarrow> ('a world_scheme, unit) js" where
  "cleanup env personTempPath garmentTempPath =
     try_catch
       (try_bind (unlink_if_exists env personTempPath)
          (\<lambda>_. unlink_if_exists env garmentTempPath))
       (\<lambda>cleanupError. try_bind (lift (message cleanupError)) (\<lambda>_. lift (Inr ())))"

text \<open>
  \<^verbatim>\<open>try { ... } catch (error) { ... } finally { ... }\<close>: the \<^verbatim>\<open>finally\<close> block runs
  after the \<^verbatim>\<open>try\<close> or the handler has fixed the value to return or the exception to
  raise, and an exception of its own replaces either. \<open>attempt_tempfile\<close> is lines
  223-322, the statement without its \<^verbatim>\<open>finally\<close> block: the outcome fixed, and the two
  path variables as the \<^verbatim>\<open>finally\<close> block finds them.
\<close>

definition attempt_tempfile ::
  "env \<Rightarrow> string \<Rightarrow> string \<Rightarrow> world
     \<Rightarrow> ((js_error + tryon_result) \<times> string option \<times> string option) \<times> world" where
  "attempt_tempfile env personImageUrl garmentImageUrl s =
     (let (startTime, s1) = Date_now env s;
          ((r, personTempPath, garmentTempPath), s2) =
             try_block_tempfile env personImageUrl garmentImageUrl startTime s1;
          (outcome, s3) = try_catch (lift r) (catch_block_tempfile env startTime) s2
      in ((outcome, personTempPath, garmentTempPath), s3))"

definition performTryOn_tempfile :: "env \<Rightarrow> string \<Rightarrow> string \<Rightarrow> (world, tryon_result) js" where
  "performTryOn_tempfile env personImageUrl garmentImageUrl s =
     (case attempt_tempfile env personImageUrl garmentImageUrl s of
        ((outcome, personTempPath, garmentTempPath), s3) \<Rightarrow>
          (case cleanup env personTempPath garmentTempPath s3 of
             (Inl e, s4) \<Rightarrow> (Inl e, s4)
           | (Inr _, s4) \<Rightarrow> (outcome, s4)))"

subsection \<open>A sample environment\<close>

text \<open>
  The scenario of the specification's end-to-end test: the space accepts the connection,
  the two source images and the result image are served, and the remote call answers
  with the result's URL and a mask preview. The clock counts the collaborator calls made
  so far.
\<close>

definition ex_env :: env where
  "ex_env =
     \<lparr>HUGGINGFACE_API_KEY = Some ''hf_abc'',
      tmpdir = ''/tmp'',
      connect_result = (\<lambda>h. Inr (Client 1)),
      duplicate_result = (\<lambda>h. Inr (Client 2)),
      get_result = (\<lambda>h. case last h of
          AxiosGet (JStr u) \<Rightarrow>
            (if u = ''https://x/p.jpg'' then Inr [1]
             else if u = ''https://x/g.jpg'' then Inr [2]
             else if u = ''https://x/out.jpg'' then Inr [3, 4]
             else Inl (Error ''Request failed with status code 404''))
        | _ \<Rightarrow> Inl (Error ''Invalid URL'')),
      predict_result = (\<lambda>h. Inr (JObj [(''data'',
          JArr [JObj [(''url'', JStr ''https://x/out.jpg'')],
                JObj [(''url'', JStr ''https://x/mask.jpg'')]])])),
      readFile_result = (\<lambda>h. Inr [5, 6, 7]),
      writeFile_outcome = (\<lambda>h. Written),
      unlink_error = (\<lambda>h. None),
      clock = (\<lambda>h. int (length h))\<rparr>"

definition fresh_state :: state where
  "fresh_state = \<lparr>trace = [], files = Map.empty, cachedClient = None\<rparr>"

definition fresh_world :: world where
  "fresh_world = \<lparr>trace = [], files = Map.empty\<rparr>"

text \<open>
  The state after the sample run of the first listing, and the state after a run of it
  in which the remote call was rejected.
\<close>

definition served_state :: state where
  "served_state =
     \<lparr>trace =
        [DateNow,
         ClientConnect ''yisol/IDM-VTON'' (Some ''hf_abc''),
         AxiosGet (JStr ''https://x/p.jpg''),
         AxiosGet (JStr ''https://x/g.jpg''),
         Predict (Client 1) ''/tryon''
           (Positional
              [ImageEditor (handle_file_blob (Blob [1] ''image/jpeg'')) [] None,
               File (handle_file_blob (Blob [2] ''image/jpeg'')),
               Text ''A stylish garment'', Flag True, Flag False, Number 30, Number 42]),
         DateNow,
         AxiosGet (JStr ''https://x/out.jpg'')],
      files = Map.empty,
      cachedClient = Some (Client 1)\<rparr>"

definition failed_state :: state where
  "failed_state =
     \<lparr>trace =
        [DateNow,
         ClientConnect ''yisol/IDM-VTON'' (Some ''hf_abc''),
         AxiosGet (JStr ''https://x/p.jpg''),
         AxiosGet (JStr ''https://x/g.jpg''),
         Predict (Client 1) ''/tryon''
           (Positional
              [ImageEditor (handle_file_blob (Blob [1] ''image/jpeg'')) [] None,
               File (handle_file_blob (Blob [2] ''image/jpeg'')),
               Text ''A stylish garment'', Flag True, Flag False, Number 30, Number 42]),
         DateNow],
      files = Map.empty,
      cachedClient = None\<rparr>"

subsection \<open>Reading a trace\<close>

text \<open>Calls that open a session: the direct connection and the provisioning of a copy.\<close>

fun is_connection :: "event \<Rightarrow> bool" where
  "is_connection (ClientConnect _ _) = True"
| "is_connection (ClientDuplicate _ _ _ _) = True"
| "is_connection _ = False"

fun is_predict :: "event \<Rightarrow> bool" where
  "is_predict (Predict _ _ _) = True"
| "is_predict _ = False"

text \<open>The events that one call added to the trace.\<close>

definition added :: "'a world_scheme \<Rightarrow> 'b world_scheme \<Rightarrow> event list" where
  "added s s' = drop (length (trace s)) (trace s')"

text \<open>A trace cut after its last reading of the clock.\<close>

definition through_last_clock :: "event list \<Rightarrow> event list" where
  "through_last_clock es = rev (dropWhile (\<lambda>e. e \<noteq> DateNow) (rev es))"

text \<open>
  The two values on which no property can be read, as exceptions; and an environment
  none of whose collaborators throws or rejects with one of them.
\<close>

definition nullish :: "js_error \<Rightarrow> bool" where
  "nullish e \<longleftrightarrow> e = Thrown JNull \<or> e = Thrown JUndefined"

definition no_nullish_rejection :: "env \<Rightarrow> bool" where
  "no_nullish_rejection env \<longleftrightarrow>
     (\<forall>h e. connect_result env h = Inl e \<longrightarrow> \<not> nullish e) \<and>
     (\<forall>h e. duplicate_result env h = Inl e \<longrightarrow> \<not> nullish e) \<and>
     (\<forall>h e. get_result env h = Inl e \<longrightarrow> \<not> nullish e) \<and>
     (\<forall>h e. predict_result env h = Inl e \<longrightarrow> \<not> nullish e) \<and>
     (\<forall>h e. readFile_result env h = Inl e \<longrightarrow> \<not> nullish e) \<and>
     (\<forall>h e. writeFile_outcome env h = OpenFailed e \<longrightarrow> \<not> nullish e) \<and>
     (\<forall>h e n. writeFile_outcome env h = WriteFailed e n \<longrightarrow> \<not> nullish e) \<and>
     (\<forall>h e. unlink_error env h = Some e \<longrightarrow> \<not> nullish e)"

text \<open>
  A computation raises readably when no exception it ends in is one of the two.
\<close>

definition raises_readably :: "('s, 'a) js \<Rightarrow> bool" where
  "raises_readably f \<longleftrightarrow> (\<forall>s e s'. f s = (Inl e, s') \<longrightarrow> \<not> nullish e)"

text \<open>
  A computation is quiet for a class of events when all it does to the world is to append
  events of that class to the trace: the files and the module's variables stay as they
  were.
\<close>

definition quiet :: "(event \<Rightarrow> bool) \<Rightarrow> ('a world_scheme, 'b) js \<Rightarrow> bool" where
  "quiet P f \<longleftrightarrow>
     (\<forall>s r s'. f s = (r, s') \<longrightarrow> (\<exists>es. s' = s\<lparr>trace := trace s @ es\<rparr> \<and> (\<forall>e \<in> set es. P e)))"

section \<open>Properties\<close>

subsection \<open>Composing computations\<close>

text \<open>
  Every primitive appends one event; a sequence of quiet computations is quiet. The
  message of a caught value can be read exactly when the value is neither \<^verbatim>\<open>null\<close>
  nor \<^verbatim>\<open>undefined\<close>; the exceptions that the engine raises are of that kind, and so
  are those of a sequence of computations that raise readably.
\<close>

lemmas prim_defs = Client_connect_def Client_duplicate_def axios_get_def client_predict_def
  readFileSync_def writeFileSync_def unlinkSync_def Date_now_def emit_def lift_def

lemma try_bind_Inr:
  "try_bind m f s = (Inr r, s') \<longleftrightarrow> (\<exists>x s1. m s = (Inr x, s1) \<and> f x s1 = (Inr r, s'))"
  by (auto simp: try_bind_def split: prod.splits sum.splits)

lemma message_cases:
  "(nullish e \<and> (\<exists>m. message e = Inl (TypeError m))) \<or> (\<not> nullish e \<and> (\<exists>v. message e = Inr v))"
proof (cases e)
  case (Error m)
  then show ?thesis by (simp add: nullish_def)
next
  case (Thrown v)
  then show ?thesis by (cases v) (auto simp: nullish_def)
qed

lemma message_Inr: "\<not> nullish e \<Longrightarrow> \<exists>v. message e = Inr v"
  using message_cases [of e] by blast


lemma get_prop_Inl: "get_prop v k = Inl e \<Longrightarrow> \<not> nullish e"
  by (cases v) (auto simp: TypeError_def nullish_def)

lemma result_structure_Inl: "result_structure v = Inl e \<Longrightarrow> \<not> nullish e"
  by (cases v) (auto simp: TypeError_def nullish_def split: if_splits)

lemma index0_Inl: "index0 v = Inl e \<Longrightarrow> \<not> nullish e"
  by (cases v) (auto simp: TypeError_def nullish_def)

lemma raises_readablyI:
  "(\<And>s e s'. f s = (Inl e, s') \<Longrightarrow> \<not> nullish e) \<Longrightarrow> raises_readably f"
  by (simp add: raises_readably_def)

lemma raises_readablyD: "raises_readably f \<Longrightarrow> f s = (Inl e, s') \<Longrightarrow> \<not> nullish e"
  unfolding raises_readably_def by blast

lemma raises_readably_lift: "(\<And>e. r = Inl e \<Longrightarrow> \<not> nullish e) \<Longrightarrow> raises_readably (lift r)"
  by (rule raises_readablyI) (simp add: lift_def)

lemma raises_readably_bind:
  assumes "raises_readably m" and "\<And>x. raises_readably (f x)"
  shows "raises_readably (try_bind m f)"
proof (rule raises_readablyI)
  fix s e s'
  assume run: "try_bind m f s = (Inl e, s')"
  obtain r1 s1 where m: "m s = (r1, s1)" by (cases "m s")
  show "\<not> nullish e"
  proof (cases r1)
    case (Inl e1)
    with run m have "m s = (Inl e, s')" by (simp add: try_bind_def)
    then show ?thesis by (rule raises_readablyD [OF assms(1)])
  next
    case (Inr x)
    with run m have "f x s1 = (Inl e, s')" by (simp add: try_bind_def)
    then show ?thesis by (rule raises_readablyD [OF assms(2)])
  qed
qed

lemma raises_readably_axios_get: "no_nullish_rejection env \<Longrightarrow> raises_readably (axios_get env u)"
  by (rule raises_readablyI) (auto simp: axios_get_def no_nullish_rejection_def Let_def)

lemma raises_readably_readFileSync:
  "no_nullish_rejection env \<Longrightarrow> raises_readably (readFileSync env u)"
  by (rule raises_readablyI) (auto simp: readFileSync_def no_nullish_rejection_def Let_def)

lemma raises_readably_client_predict:
  "no_nullish_rejection env \<Longrightarrow> raises_readably (client_predict env c ep a)"
  by (rule raises_readablyI) (auto simp: client_predict_def no_nullish_rejection_def Let_def)

lemma raises_readably_Client_connect:
  "no_nullish_rejection env \<Longrightarrow> raises_readably (Client_connect env sp k)"
  by (rule raises_readablyI) (auto simp: Client_connect_def no_nullish_rejection_def Let_def)

lemma raises_readably_writeFileSync:
  "no_nullish_rejection env \<Longrightarrow> raises_readably (writeFileSync env x d)"
proof (rule raises_readablyI)
  fix s e s'
  assume nn: "no_nullish_rejection env" and run: "writeFileSync env x d s = (Inl e, s')"
  let ?h = "trace (emit (WriteFileSync x d) s)"
  from run have "writeFile_outcome env ?h = OpenFailed e \<or> (\<exists>n. writeFile_outcome env ?h = WriteFailed e n)"
    by (auto simp: writeFileSync_def Let_def split: write_outcome.splits)
  with nn show "\<not> nullish e" unfolding no_nullish_rejection_def by blast
qed

lemma raises_readably_unlinkSync:
  "no_nullish_rejection env \<Longrightarrow> raises_readably (unlinkSync env x)"
  by (rule raises_readablyI)
     (auto simp: unlinkSync_def no_nullish_rejection_def Let_def split: option.splits)

lemma raises_readably_normalizeOutput:
  assumes "no_nullish_rejection env"
  shows "raises_readably (normalizeOutput env x)"
  unfolding normalizeOutput_def
  by (auto intro!: raises_readably_axios_get raises_readably_readFileSync raises_readably_lift
        assms simp: nullish_def split: js_value.splits)

lemma raises_readably_read_result:
  assumes nn: "no_nullish_rejection env"
  shows "raises_readably (read_result env t0 res)"
proof (rule raises_readablyI)
  fix s e s'
  assume run: "read_result env t0 res s = (Inl e, s')"
  have inner: "raises_readably (try_bind (lift (get_prop res ''data'')) (\<lambda>data.
         try_bind (lift (result_structure data)) (\<lambda>_.
         try_bind (lift (index0 data)) (\<lambda>outputImage.
         try_bind (normalizeOutput env outputImage) (\<lambda>outputBuffer.
         lift (Inr (Success outputBuffer t)))))))" for t
    apply (rule raises_readably_bind)
     apply (rule raises_readably_lift)
     apply (erule get_prop_Inl)
    apply (rule raises_readably_bind)
     apply (rule raises_readably_lift)
     apply (erule result_structure_Inl)
    apply (rule raises_readably_bind)
     apply (rule raises_readably_lift)
     apply (erule index0_Inl)
    apply (rule raises_readably_bind)
     apply (rule raises_readably_normalizeOutput [OF nn])
    apply (rule raises_readably_lift)
    apply simp
    done
  from run show "\<not> nullish e"
    by (auto simp: read_result_def Date_now_def Let_def dest: raises_readablyD [OF inner])
qed

lemma remote_call_raises_readably:
  assumes nn: "no_nullish_rejection env"
  shows "raises_readably (try_bind (client_predict env c ep a) (read_result env t0))"
  by (intro raises_readably_bind raises_readably_client_predict raises_readably_read_result nn)

lemma quietI:
  "(\<And>s r s'. f s = (r, s') \<Longrightarrow> \<exists>es. s' = s\<lparr>trace := trace s @ es\<rparr> \<and> (\<forall>e \<in> set es. P e)) \<Longrightarrow> quiet P f"
  by (simp add: quiet_def)

lemma quietD:
  "quiet P f \<Longrightarrow> f s = (r, s') \<Longrightarrow> \<exists>es. s' = s\<lparr>trace := trace s @ es\<rparr> \<and> (\<forall>e \<in> set es. P e)"
  by (simp add: quiet_def)

lemma quiet_lift: "quiet P (lift r)"
  by (rule quietI) (auto simp: lift_def intro: exI [of _ "[]"])

lemma quiet_axios_get: "P (AxiosGet u) \<Longrightarrow> quiet P (axios_get env u)"
  by (rule quietI) (auto simp: axios_get_def emit_def intro: exI [of _ "[AxiosGet u]"])

lemma quiet_readFileSync: "P (ReadFileSync u) \<Longrightarrow> quiet P (readFileSync env u)"
  by (rule quietI) (auto simp: readFileSync_def emit_def intro: exI [of _ "[ReadFileSync u]"])

lemma quiet_client_predict: "P (Predict c ep a) \<Longrightarrow> quiet P (client_predict env c ep a)"
  by (rule quietI) (auto simp: client_predict_def emit_def intro: exI [of _ "[Predict c ep a]"])

lemma quiet_bind:
  assumes "quiet P m" and "\<And>x. quiet P (f x)"
  shows "quiet P (try_bind m f)"
proof (rule quietI)
  fix s r s'
  assume run: "try_bind m f s = (r, s')"
  obtain r1 s1 where m: "m s = (r1, s1)" by (cases "m s")
  from quietD [OF assms(1) m] obtain es1 where
    s1: "s1 = s\<lparr>trace := trace s @ es1\<rparr>" and P1: "\<forall>e \<in> set es1. P e" by blast
  show "\<exists>es. s' = s\<lparr>trace := trace s @ es\<rparr> \<and> (\<forall>e \<in> set es. P e)"
  proof (cases r1)
    case (Inl e)
    with run m have "s' = s1" by (simp add: try_bind_def)
    with s1 P1 show ?thesis by blast
  next
    case (Inr x)
    with run m have "f x s1 = (r, s')" by (simp add: try_bind_def)
    from quietD [OF assms(2) this] obtain es2 where
      s': "s' = s1\<lparr>trace := trace s1 @ es2\<rparr>" and P2: "\<forall>e \<in> set es2. P e" by blast
    from s1 s' have "s' = s\<lparr>trace := trace s @ (es1 @ es2)\<rparr>" by simp
    moreover from P1 P2 have "\<forall>e \<in> set (es1 @ es2). P e" by auto
    ultimately show ?thesis by blast
  qed
qed

lemma quiet_normalizeOutput:
  "(\<And>u. P (AxiosGet u)) \<Longrightarrow> (\<And>u. P (ReadFileSync u)) \<Longrightarrow> quiet P (normalizeOutput env x)"
  unfolding normalizeOutput_def
  by (auto intro!: quiet_axios_get quiet_readFileSync quiet_lift split: js_value.splits)

lemma quiet_fetchImageBlob: "P (AxiosGet (JStr u)) \<Longrightarrow> quiet P (fetchImageBlob env u)"
  unfolding fetchImageBlob_def by (intro quiet_bind quiet_axios_get quiet_lift)

lemma quiet_Date_now_then:
  assumes "P DateNow" and "\<And>t. quiet P (f t)"
  shows "quiet P (\<lambda>s. case Date_now env s of (t, s1) \<Rightarrow> f t s1)"
proof (rule quietI)
  fix s r s'
  assume "(case Date_now env s of (t, s1) \<Rightarrow> f t s1) = (r, s')"
  then have "f (clock env (trace s @ [DateNow])) (s\<lparr>trace := trace s @ [DateNow]\<rparr>) = (r, s')"
    by (simp add: Date_now_def emit_def)
  from quietD [OF assms(2) this] obtain es where
    "s' = s\<lparr>trace := trace s @ DateNow # es\<rparr>" and "\<forall>e \<in> set es. P e" by auto
  with assms(1) show "\<exists>es. s' = s\<lparr>trace := trace s @ es\<rparr> \<and> (\<forall>e \<in> set es. P e)"
    apply -
    apply (rule exI [of _ "DateNow # es"])
    apply simp
    done
qed

lemma quiet_read_result:
  assumes D: "P DateNow" and A: "\<And>u. P (AxiosGet u)" and R: "\<And>u. P (ReadFileSync u)"
  shows "quiet P (read_result env t0 res)"
proof -
  have inner: "quiet P (try_bind (lift (get_prop res ''data'')) (\<lambda>data.
         try_bind (lift (result_structure data)) (\<lambda>_.
         try_bind (lift (index0 data)) (\<lambda>outputImage.
         try_bind (normalizeOutput env outputImage) (\<lambda>outputBuffer.
         lift (Inr (Success outputBuffer (t - t0))))))))" for t
    apply (rule quiet_bind)
     apply (rule quiet_lift)
    apply (rule quiet_bind)
     apply (rule quiet_lift)
    apply (rule quiet_bind)
     apply (rule quiet_lift)
    apply (rule quiet_bind)
     apply (rule quiet_normalizeOutput)
      apply (rule A)
     apply (rule R)
    apply (rule quiet_lift)
    done
  have eq: "read_result env t0 res = (\<lambda>s. case Date_now env s of (t, s1) \<Rightarrow>
      try_bind (lift (get_prop res ''data'')) (\<lambda>data.
         try_bind (lift (result_structure data)) (\<lambda>_.
         try_bind (lift (index0 data)) (\<lambda>outputImage.
         try_bind (normalizeOutput env outputImage) (\<lambda>outputBuffer.
         lift (Inr (Success outputBuffer (t - t0))))))) s1)"
    by (rule ext) (simp add: read_result_def Let_def split: prod.splits)
  show ?thesis
    by (subst eq) (rule quiet_Date_now_then [OF D inner])
qed

lemma remote_call_quiet:
  assumes A: "\<And>u. P (AxiosGet u)" and Pr: "\<And>c a. P (Predict c ''/tryon'' a)"
    and R: "\<And>u. P (ReadFileSync u)" and D: "P DateNow"
  shows "quiet P (try_bind (client_predict env c ''/tryon'' a) (read_result env t0))"
  apply (rule quiet_bind)
   apply (rule quiet_client_predict)
   apply (rule Pr)
  apply (rule quiet_read_result)
    apply (rule D)
   apply (rule A)
  apply (rule R)
  done

lemma through_last_clock_snoc: "through_last_clock (xs @ [DateNow]) = xs @ [DateNow]"
  by (simp add: through_last_clock_def)

lemma through_last_clock_append:
  "DateNow \<notin> set post \<Longrightarrow> through_last_clock (xs @ DateNow # post) = xs @ [DateNow]"
proof -
  assume "DateNow \<notin> set post"
  then have "dropWhile (\<lambda>e. e \<noteq> DateNow) (rev post @ DateNow # rev xs) = DateNow # rev xs"
    by (subst dropWhile_append2) auto
  then show ?thesis by (simp add: through_last_clock_def)
qed

subsection \<open>What the acquisition does\<close>

text \<open>
  \<open>getClient\<close> written out by cases, and what it can add to the trace: nothing, the
  connection, or the connection and the provisioning.
\<close>

lemma getClient_cached: "cachedClient s = Some c \<Longrightarrow> getClient env s = (Inr c, s)"
  by (simp add: getClient_def)

lemma getClient_unfold:
  "getClient env s =
     (case cachedClient s of
        Some c \<Rightarrow> (Inr c, s)
      | None \<Rightarrow>
          if \<not> hasToken env then
            (Inl (Error ''HUGGINGFACE_API_KEY is required for IDM-VTON''), s)
          else
            (case connect_result env (trace s @ [ClientConnect SPACE_ID (HUGGINGFACE_API_KEY env)]) of
               Inr c \<Rightarrow>
                 (Inr c, s\<lparr>trace := trace s @ [ClientConnect SPACE_ID (HUGGINGFACE_API_KEY env)],
                           cachedClient := Some c\<rparr>)
             | Inl connectError \<Rightarrow>
                 (case message connectError of
                    Inl e \<Rightarrow>
                      (Inl e, s\<lparr>trace := trace s @ [ClientConnect SPACE_ID (HUGGINGFACE_API_KEY env)]\<rparr>)
                  | Inr _ \<Rightarrow>
                 (case duplicate_result env
                         (trace s @ [ClientConnect SPACE_ID (HUGGINGFACE_API_KEY env),
                            ClientDuplicate SPACE_ID (HUGGINGFACE_API_KEY env) 300 True]) of
                    Inr c \<Rightarrow>
                      (Inr c, s\<lparr>trace := trace s @ [ClientConnect SPACE_ID (HUGGINGFACE_API_KEY env),
                                    ClientDuplicate SPACE_ID (HUGGINGFACE_API_KEY env) 300 True],
                                cachedClient := Some c\<rparr>)
                  | Inl e \<Rightarrow>
                      (Inl e, s\<lparr>trace := trace s @ [ClientConnect SPACE_ID (HUGGINGFACE_API_KEY env),
                                    ClientDuplicate SPACE_ID (HUGGINGFACE_API_KEY env) 300 True]\<rparr>)))))"
  by (simp add: getClient_def try_catch_def try_bind_def set_cachedClient_def prim_defs
        split: option.splits sum.splits)

lemma getClient_effect:
  assumes "getClient env s = (r, s')"
  shows "\<exists>es. s' = s\<lparr>trace := trace s @ es, cachedClient := cachedClient s'\<rparr> \<and>
           (\<forall>e \<in> set es. is_connection e) \<and>
           (case r of Inr c \<Rightarrow> cachedClient s' = Some c | Inl e \<Rightarrow> cachedClient s' = cachedClient s) \<and>
           (cachedClient s = None \<and> hasToken env \<longrightarrow>
              (\<exists>es'. es = ClientConnect SPACE_ID (HUGGINGFACE_API_KEY env) # es'))"
proof -
  let ?k = "HUGGINGFACE_API_KEY env"
  let ?Q = "\<lambda>es. s' = s\<lparr>trace := trace s @ es, cachedClient := cachedClient s'\<rparr> \<and>
           (\<forall>e \<in> set es. is_connection e) \<and>
           (case r of Inr c \<Rightarrow> cachedClient s' = Some c | Inl e \<Rightarrow> cachedClient s' = cachedClient s) \<and>
           (cachedClient s = None \<and> hasToken env \<longrightarrow>
              (\<exists>es'. es = ClientConnect SPACE_ID (HUGGINGFACE_API_KEY env) # es'))"
  from assms have "?Q [] \<or> ?Q [ClientConnect SPACE_ID ?k] \<or>
      ?Q [ClientConnect SPACE_ID ?k, ClientDuplicate SPACE_ID ?k 300 True]"
    unfolding getClient_unfold
    by (auto split: option.splits sum.splits if_splits)
  then show ?thesis by blast
qed


subsection \<open>What the first listing does\<close>

text \<open>
  A successful run of the body of the \<^verbatim>\<open>try\<close> is taken apart step by step; a run
  that fails is only known to have appended events. The handler returns when it can read
  the message of what it has caught, and raises otherwise.
\<close>

lemma normalizeOutput_undefined:
  "normalizeOutput env JUndefined s =
     (Inl (Error ''Unexpected output format from Gradio client''), s)"
  by (simp add: normalizeOutput_def and_prop_def lift_def)

lemma first_output:
  assumes "result_structure d = Inr ()" and "index0 d = Inr x"
  shows "\<exists>ds. d = JArr ds \<and> JNull \<notin> set ds \<and> x = (case ds of [] \<Rightarrow> JUndefined | y # _ \<Rightarrow> y)"
  using assms by (cases d) (auto simp: TypeError_def split: if_splits)

lemma read_result_Inr:
  assumes "read_result env t0 res s = (Inr r, s')"
  shows "\<exists>x rest buf. get_prop res ''data'' = Inr (JArr (x # rest)) \<and> JNull \<notin> set (x # rest) \<and>
           normalizeOutput env x (emit DateNow s) = (Inr buf, s') \<and>
           r = Success buf (clock env (trace s @ [DateNow]) - t0)"
proof -
  from assms obtain d x buf where
    d: "get_prop res ''data'' = Inr d" and rs: "result_structure d = Inr ()" and
    x: "index0 d = Inr x" and n: "normalizeOutput env x (emit DateNow s) = (Inr buf, s')" and
    r: "r = Success buf (clock env (trace s @ [DateNow]) - t0)"
    by (auto simp: read_result_def Date_now_def try_bind_Inr lift_def emit_def)
  from first_output [OF rs x] obtain ds where
    ds: "d = JArr ds" "JNull \<notin> set ds" "x = (case ds of [] \<Rightarrow> JUndefined | y # _ \<Rightarrow> y)" by blast
  show ?thesis
  proof (cases ds)
    case Nil
    with ds n show ?thesis by (simp add: normalizeOutput_undefined)
  next
    case (Cons y ys)
    with ds d n r show ?thesis by auto
  qed
qed

lemma performTryOn_unfold:
  "performTryOn env p g s =
     try_catch (try_block env p g (clock env (trace s @ [DateNow])))
       (catch_block env (clock env (trace s @ [DateNow]))) (emit DateNow s)"
  by (simp add: performTryOn_def Date_now_def emit_def)

lemma catch_block_unfold:
  "catch_block env t0 e s =
     (case message e of
        Inl e' \<Rightarrow> (Inl e', s)
      | Inr m \<Rightarrow>
          (Inr (Failure (message_or m ''Try-on processing failed'')
                  (clock env (trace s @ [DateNow]) - t0)),
           s\<lparr>trace := trace s @ [DateNow], cachedClient := None\<rparr>))"
  by (simp add: catch_block_def try_bind_def lift_def Date_now_def emit_def split: sum.splits)

lemma try_block_Inr:
  assumes "try_block env p g t0 s = (Inr r, s')"
  shows "\<exists>c sc pb gb result x rest buf.
     getClient env s = (Inr c, sc) \<and>
     get_result env (trace sc @ [AxiosGet (JStr p)]) = Inr pb \<and>
     get_result env (trace sc @ [AxiosGet (JStr p), AxiosGet (JStr g)]) = Inr gb \<and>
     predict_result env
       (trace sc @ [AxiosGet (JStr p), AxiosGet (JStr g),
          Predict c ''/tryon''
            (Positional
               [ImageEditor (handle_file_blob (Blob pb ''image/jpeg'')) [] None,
                File (handle_file_blob (Blob gb ''image/jpeg'')),
                Text ''A stylish garment'', Flag True, Flag False, Number 30, Number 42])])
       = Inr result \<and>
     get_prop result ''data'' = Inr (JArr (x # rest)) \<and>
     JNull \<notin> set (x # rest) \<and>
     normalizeOutput env x
       (sc\<lparr>trace := trace sc @ [AxiosGet (JStr p), AxiosGet (JStr g),
          Predict c ''/tryon''
            (Positional
               [ImageEditor (handle_file_blob (Blob pb ''image/jpeg'')) [] None,
                File (handle_file_blob (Blob gb ''image/jpeg'')),
                Text ''A stylish garment'', Flag True, Flag False, Number 30, Number 42]),
          DateNow]\<rparr>) = (Inr buf, s') \<and>
     r = Success buf
           (clock env (trace sc @ [AxiosGet (JStr p), AxiosGet (JStr g),
              Predict c ''/tryon''
                (Positional
                   [ImageEditor (handle_file_blob (Blob pb ''image/jpeg'')) [] None,
                    File (handle_file_blob (Blob gb ''image/jpeg'')),
                    Text ''A stylish garment'', Flag True, Flag False, Number 30, Number 42]),
              DateNow]) - t0)"
proof -
  from assms obtain c sc pb s1 gb s2 result s3 where
    gc: "getClient env s = (Inr c, sc)" and
    f1: "axios_get env (JStr p) sc = (Inr pb, s1)" and
    f2: "axios_get env (JStr g) s1 = (Inr gb, s2)" and
    pr: "client_predict env c ''/tryon''
           (Positional
               [ImageEditor (handle_file_blob (Blob pb ''image/jpeg'')) [] None,
                File (handle_file_blob (Blob gb ''image/jpeg'')),
                Text ''A stylish garment'', Flag True, Flag False, Number 30, Number 42]) s2
          = (Inr result, s3)" and
    rr: "read_result env t0 result s3 = (Inr r, s')"
    by (auto simp: try_block_def fetchImageBlob_def try_bind_Inr lift_def)
  from f1 have s1: "s1 = sc\<lparr>trace := trace sc @ [AxiosGet (JStr p)]\<rparr>"
    and pb: "get_result env (trace sc @ [AxiosGet (JStr p)]) = Inr pb"
    by (auto simp: axios_get_def emit_def)
  from f2 s1 have s2: "s2 = sc\<lparr>trace := trace sc @ [AxiosGet (JStr p), AxiosGet (JStr g)]\<rparr>"
    and gb: "get_result env (trace sc @ [AxiosGet (JStr p), AxiosGet (JStr g)]) = Inr gb"
    by (auto simp: axios_get_def emit_def)
  from pr s2 have s3: "s3 = sc\<lparr>trace := trace sc @ [AxiosGet (JStr p), AxiosGet (JStr g),
          Predict c ''/tryon''
            (Positional
               [ImageEditor (handle_file_blob (Blob pb ''image/jpeg'')) [] None,
                File (handle_file_blob (Blob gb ''image/jpeg'')),
                Text ''A stylish garment'', Flag True, Flag False, Number 30, Number 42])]\<rparr>"
    and res: "predict_result env
       (trace sc @ [AxiosGet (JStr p), AxiosGet (JStr g),
          Predict c ''/tryon''
            (Positional
               [ImageEditor (handle_file_blob (Blob pb ''image/jpeg'')) [] None,
                File (handle_file_blob (Blob gb ''image/jpeg'')),
                Text ''A stylish garment'', Flag True, Flag False, Number 30, Number 42])])
       = Inr result"
    by (auto simp: client_predict_def emit_def)
  from read_result_Inr [OF rr] obtain x rest buf where
    "get_prop result ''data'' = Inr (JArr (x # rest))"
    "JNull \<notin> set (x # rest)"
    "normalizeOutput env x (emit DateNow s3) = (Inr buf, s')"
    "r = Success buf (clock env (trace s3 @ [DateNow]) - t0)" by blast
  with gc pb gb res s3 show ?thesis
    by (simp add: emit_def)
qed

lemma try_block_effect:
  assumes run: "try_block env p g t0 s = (r, s')"
    and A: "\<And>u. P (AxiosGet u)" and Pr: "\<And>c a. P (Predict c ''/tryon'' a)"
    and R: "\<And>u. P (ReadFileSync u)" and D: "P DateNow"
  shows "\<exists>r1 sc es. getClient env s = (r1, sc) \<and> s' = sc\<lparr>trace := trace sc @ es\<rparr> \<and>
           (\<forall>e \<in> set es. P e) \<and> (\<forall>e. r1 = Inl e \<longrightarrow> r = Inl e \<and> es = [])"
proof -
  obtain r1 sc where gc: "getClient env s = (r1, sc)" by (cases "getClient env s")
  show ?thesis
  proof (cases r1)
    case (Inl e)
    with run gc have "s' = sc" "r = Inl e" by (simp_all add: try_block_def try_bind_def)
    with gc Inl show ?thesis by (intro exI [of _ r1] exI [of _ sc] exI [of _ "[]"]) simp
  next
    case (Inr c)
    have q: "quiet P
      (try_bind (fetchImageBlob env p) (\<lambda>personBlob.
       try_bind (fetchImageBlob env g) (\<lambda>garmentBlob.
       try_bind (client_predict env c ''/tryon''
                 (Positional
                    [ImageEditor (handle_file_blob personBlob) [] None,
                     File (handle_file_blob garmentBlob),
                     Text ''A stylish garment'', Flag True, Flag False, Number 30, Number 42]))
         (read_result env t0))))"
      apply (rule quiet_bind)
       apply (rule quiet_fetchImageBlob)
       apply (rule A)
      apply (rule quiet_bind)
       apply (rule quiet_fetchImageBlob)
       apply (rule A)
      apply (rule quiet_bind)
       apply (rule quiet_client_predict)
       apply (rule Pr)
      apply (rule quiet_read_result)
        apply (rule D)
       apply (rule A)
      apply (rule R)
      done
    from run gc Inr have "try_bind (fetchImageBlob env p) (\<lambda>personBlob.
       try_bind (fetchImageBlob env g) (\<lambda>garmentBlob.
       try_bind (client_predict env c ''/tryon''
                 (Positional
                    [ImageEditor (handle_file_blob personBlob) [] None,
                     File (handle_file_blob garmentBlob),
                     Text ''A stylish garment'', Flag True, Flag False, Number 30, Number 42]))
         (read_result env t0))) sc = (r, s')"
      by (simp add: try_block_def try_bind_def)
    from quietD [OF q this] obtain es where
      "s' = sc\<lparr>trace := trace sc @ es\<rparr>" "\<forall>e \<in> set es. P e" by blast
    with gc Inr show ?thesis by (intro exI [of _ r1] exI [of _ sc] exI [of _ es]) simp
  qed
qed

lemma performTryOn_effect:
  assumes run: "performTryOn env p g s = (r, s')"
    and A: "\<And>u. P (AxiosGet u)" and Pr: "\<And>c a. P (Predict c ''/tryon'' a)"
    and R: "\<And>u. P (ReadFileSync u)" and D: "P DateNow"
  shows "\<exists>r1 sc es. getClient env (emit DateNow s) = (r1, sc) \<and>
           trace s' = trace sc @ es \<and> files s' = files sc \<and> (\<forall>e \<in> set es. P e)"
proof -
  let ?t0 = "clock env (trace s @ [DateNow])"
  obtain r2 s2 where tb: "try_block env p g ?t0 (emit DateNow s) = (r2, s2)"
    by (cases "try_block env p g ?t0 (emit DateNow s)")
  from try_block_effect [OF tb A Pr R D] obtain r1 sc es where
    gc: "getClient env (emit DateNow s) = (r1, sc)" and s2: "s2 = sc\<lparr>trace := trace sc @ es\<rparr>"
    and es: "\<forall>e \<in> set es. P e" by blast
  show ?thesis
  proof (cases r2)
    case (Inr x)
    with run tb have "s' = s2" by (simp add: performTryOn_unfold try_catch_def)
    with gc s2 es show ?thesis by (intro exI [of _ r1] exI [of _ sc] exI [of _ es]) simp
  next
    case (Inl e)
    with run tb have "s' = s2 \<or> s' = s2\<lparr>trace := trace s2 @ [DateNow], cachedClient := None\<rparr>"
      by (auto simp: performTryOn_unfold try_catch_def catch_block_unfold split: sum.splits)
    then show ?thesis
    proof
      assume "s' = s2"
      with gc s2 es show ?thesis by (intro exI [of _ r1] exI [of _ sc] exI [of _ es]) simp
    next
      assume "s' = s2\<lparr>trace := trace s2 @ [DateNow], cachedClient := None\<rparr>"
      with gc s2 es D show ?thesis
        apply -
        apply (rule exI [of _ r1])
        apply (rule exI [of _ sc])
        apply (rule exI [of _ "es @ [DateNow]"])
        apply simp
        done
    qed
  qed
qed

lemma performTryOn_Success:
  assumes "performTryOn env p g s = (Inr (Success b t), s')"
  shows "try_block env p g (clock env (trace s @ [DateNow])) (emit DateNow s) = (Inr (Success b t), s')"
  using assms
  by (auto simp: performTryOn_unfold try_catch_def catch_block_unfold split: prod.splits sum.splits)

lemma performTryOn_Failure:
  assumes "performTryOn env p g s = (Inr (Failure m t), s')"
  shows "\<exists>e s2 v. try_block env p g (clock env (trace s @ [DateNow])) (emit DateNow s) = (Inl e, s2) \<and>
           message e = Inr v \<and>
           s' = s2\<lparr>trace := trace s2 @ [DateNow], cachedClient := None\<rparr> \<and>
           m = message_or v ''Try-on processing failed'' \<and>
           t = clock env (trace s2 @ [DateNow]) - clock env (trace s @ [DateNow])"
proof -
  let ?t0 = "clock env (trace s @ [DateNow])"
  obtain r2 s2 where tb: "try_block env p g ?t0 (emit DateNow s) = (r2, s2)"
    by (cases "try_block env p g ?t0 (emit DateNow s)")
  show ?thesis
  proof (cases r2)
    case (Inr x)
    with tb try_block_Inr [of env p g ?t0 "emit DateNow s" x s2] obtain b t' where "x = Success b t'"
      by blast
    with assms tb Inr show ?thesis by (simp add: performTryOn_unfold try_catch_def)
  next
    case (Inl e)
    with assms tb show ?thesis
      by (auto simp: performTryOn_unfold try_catch_def catch_block_unfold split: sum.splits)
  qed
qed




lemma success_keeps_cache:
  assumes "performTryOn env p g s = (Inr (Success b t), s')"
  shows "\<exists>c. cachedClient s' = Some c"
proof -
  from try_block_Inr [OF performTryOn_Success [OF assms]] obtain c sc h x buf where
    gc: "getClient env (emit DateNow s) = (Inr c, sc)" and
    n: "normalizeOutput env x (sc\<lparr>trace := h\<rparr>) = (Inr buf, s')" by blast
  from getClient_effect [OF gc] have "cachedClient sc = Some c" by auto
  moreover from quietD [OF quiet_normalizeOutput [of "\<lambda>_. True"] n]
  obtain es where "s' = sc\<lparr>trace := h @ es\<rparr>" by auto
  ultimately show ?thesis by simp
qed

lemma cached_no_connection:
  assumes c: "cachedClient s = Some c" and run: "performTryOn env p g s = (r, s')"
  shows "\<forall>e \<in> set (added s s'). \<not> is_connection e"
proof -
  from c have "getClient env (emit DateNow s) = (Inr c, emit DateNow s)"
    by (simp add: getClient_cached emit_def)
  with performTryOn_effect [OF run, of "\<lambda>e. \<not> is_connection e"] obtain es where
    "trace s' = trace s @ DateNow # es" "\<forall>e \<in> set es. \<not> is_connection e"
    by (auto simp: emit_def)
  then show ?thesis by (simp add: added_def)
qed

lemma performTryOn_files: "performTryOn env p g s = (r, s') \<Longrightarrow> files s' = files s"
proof -
  assume run: "performTryOn env p g s = (r, s')"
  from performTryOn_effect [OF run, of "\<lambda>_. True"] obtain r1 sc where
    gc: "getClient env (emit DateNow s) = (r1, sc)" and "files s' = files sc" by auto
  moreover from getClient_effect [OF gc] obtain es cc where
    "sc = (emit DateNow s)\<lparr>trace := trace (emit DateNow s) @ es, cachedClient := cc\<rparr>" by blast
  then have "files sc = files s" by (simp add: emit_def)
  ultimately show ?thesis by simp
qed

lemma tryon_remote_call_first:
  assumes run: "performTryOn env p g s = (Inr (Success buf t), s')"
  shows "\<exists>conn c pb gb result x rest post sm.
       added s s' =
         DateNow # conn @
         [AxiosGet (JStr p), AxiosGet (JStr g),
          Predict c ''/tryon''
            (Positional
               [ImageEditor (handle_file_blob (Blob pb ''image/jpeg'')) [] None,
                File (handle_file_blob (Blob gb ''image/jpeg'')),
                Text ''A stylish garment'', Flag True, Flag False, Number 30, Number 42]),
          DateNow] @ post \<and>
       (\<forall>e \<in> set conn. is_connection e) \<and>
       (\<forall>e \<in> set post. \<not> is_predict e) \<and>
       get_result env (trace s @ DateNow # conn @ [AxiosGet (JStr p)]) = Inr pb \<and>
       get_result env (trace s @ DateNow # conn @ [AxiosGet (JStr p), AxiosGet (JStr g)]) = Inr gb \<and>
       trace sm @ post = trace s' \<and>
       predict_result env (butlast (trace sm)) = Inr result \<and>
       get_prop result ''data'' = Inr (JArr (x # rest)) \<and>
       JNull \<notin> set (x # rest) \<and>
       normalizeOutput env x sm = (Inr buf, s')"
proof -
  from try_block_Inr [OF performTryOn_Success [OF run]] obtain c sc pb gb result x rest buf' where
    gc: "getClient env (emit DateNow s) = (Inr c, sc)" and
    pb: "get_result env (trace sc @ [AxiosGet (JStr p)]) = Inr pb" and
    gb: "get_result env (trace sc @ [AxiosGet (JStr p), AxiosGet (JStr g)]) = Inr gb" and
    res: "predict_result env
       (trace sc @ [AxiosGet (JStr p), AxiosGet (JStr g),
          Predict c ''/tryon''
            (Positional
               [ImageEditor (handle_file_blob (Blob pb ''image/jpeg'')) [] None,
                File (handle_file_blob (Blob gb ''image/jpeg'')),
                Text ''A stylish garment'', Flag True, Flag False, Number 30, Number 42])])
       = Inr result" and
    d: "get_prop result ''data'' = Inr (JArr (x # rest))" and
    nn: "JNull \<notin> set (x # rest)" and
    n: "normalizeOutput env x
       (sc\<lparr>trace := trace sc @ [AxiosGet (JStr p), AxiosGet (JStr g),
          Predict c ''/tryon''
            (Positional
               [ImageEditor (handle_file_blob (Blob pb ''image/jpeg'')) [] None,
                File (handle_file_blob (Blob gb ''image/jpeg'')),
                Text ''A stylish garment'', Flag True, Flag False, Number 30, Number 42]),
          DateNow]\<rparr>) = (Inr buf', s')" and
    r: "Success buf t = Success buf'
           (clock env (trace sc @ [AxiosGet (JStr p), AxiosGet (JStr g),
              Predict c ''/tryon''
                (Positional
                   [ImageEditor (handle_file_blob (Blob pb ''image/jpeg'')) [] None,
                    File (handle_file_blob (Blob gb ''image/jpeg'')),
                    Text ''A stylish garment'', Flag True, Flag False, Number 30, Number 42]),
              DateNow]) - clock env (trace s @ [DateNow]))"
    by blast
  let ?sm = "sc\<lparr>trace := trace sc @ [AxiosGet (JStr p), AxiosGet (JStr g),
          Predict c ''/tryon''
            (Positional
               [ImageEditor (handle_file_blob (Blob pb ''image/jpeg'')) [] None,
                File (handle_file_blob (Blob gb ''image/jpeg'')),
                Text ''A stylish garment'', Flag True, Flag False, Number 30, Number 42]),
          DateNow]\<rparr>"
  from getClient_effect [OF gc] obtain conn cc where
    sc: "sc = (emit DateNow s)\<lparr>trace := trace (emit DateNow s) @ conn, cachedClient := cc\<rparr>"
    and conn: "\<forall>e \<in> set conn. is_connection e" by blast
  then have tsc: "trace sc = trace s @ DateNow # conn" by (simp add: emit_def)
  from quietD [OF quiet_normalizeOutput [of "\<lambda>e. \<not> is_predict e"] n] obtain post where
    s': "s' = ?sm\<lparr>trace := trace ?sm @ post\<rparr>" and post: "\<forall>e \<in> set post. \<not> is_predict e"
    by auto
  from s' have ts': "trace s' = trace ?sm @ post" by simp
  from r have buf: "buf' = buf" by simp
  from ts' tsc have ad: "added s s' =
         DateNow # conn @
         [AxiosGet (JStr p), AxiosGet (JStr g),
          Predict c ''/tryon''
            (Positional
               [ImageEditor (handle_file_blob (Blob pb ''image/jpeg'')) [] None,
                File (handle_file_blob (Blob gb ''image/jpeg'')),
                Text ''A stylish garment'', Flag True, Flag False, Number 30, Number 42]),
          DateNow] @ post"
    by (simp add: added_def)
  from res have res': "predict_result env (butlast (trace ?sm)) = Inr result"
    by (simp add: butlast_append)
  from ad conn post pb gb tsc ts' res' d nn n buf show ?thesis
    apply -
    apply (rule exI [of _ conn])
    apply (rule exI [of _ c])
    apply (rule exI [of _ pb])
    apply (rule exI [of _ gb])
    apply (rule exI [of _ result])
    apply (rule exI [of _ x])
    apply (rule exI [of _ rest])
    apply (rule exI [of _ post])
    apply (rule exI [of _ ?sm])
    apply simp
    done
qed

lemma processing_time_first:
  assumes run: "performTryOn env p g s = (Inr r, s')"
  shows "processingTime r =
           clock env (through_last_clock (trace s')) - clock env (trace s @ [DateNow]) \<and>
         (\<forall>m t. r = Failure m t \<longrightarrow> through_last_clock (trace s') = trace s') \<and>
         (\<forall>b t. r = Success b t \<longrightarrow>
            (\<exists>pre c a post.
               through_last_clock (trace s') = pre @ [Predict c ''/tryon'' a, DateNow] \<and>
               trace s' = through_last_clock (trace s') @ post \<and>
               (\<forall>e \<in> set post. (\<exists>u. e = AxiosGet u) \<or> (\<exists>u. e = ReadFileSync u))))"
proof (cases r)
  case (Failure m t)
  from performTryOn_Failure [OF run [unfolded Failure]] obtain s2 where
    s': "s' = s2\<lparr>trace := trace s2 @ [DateNow], cachedClient := None\<rparr>" and
    t: "t = clock env (trace s2 @ [DateNow]) - clock env (trace s @ [DateNow])" by blast
  from s' have "trace s' = trace s2 @ [DateNow]" by simp
  with Failure t show ?thesis by (simp add: through_last_clock_snoc)
next
  case (Success b t)
  from try_block_Inr [OF performTryOn_Success [OF run [unfolded Success]]]
  obtain c sc a x buf where
    n: "normalizeOutput env x
          (sc\<lparr>trace := trace sc @ [AxiosGet (JStr p), AxiosGet (JStr g), Predict c ''/tryon'' a,
             DateNow]\<rparr>) = (Inr buf, s')" and
    r: "Success b t = Success buf
          (clock env (trace sc @ [AxiosGet (JStr p), AxiosGet (JStr g), Predict c ''/tryon'' a,
             DateNow]) - clock env (trace s @ [DateNow]))"
    by blast
  from quietD [OF quiet_normalizeOutput
      [of "\<lambda>e. (\<exists>u. e = AxiosGet u) \<or> (\<exists>u. e = ReadFileSync u)"] n]
  obtain post where
    ts': "trace s' = (trace sc @ [AxiosGet (JStr p), AxiosGet (JStr g), Predict c ''/tryon'' a])
            @ DateNow # post" and
    post: "\<forall>e \<in> set post. (\<exists>u. e = AxiosGet u) \<or> (\<exists>u. e = ReadFileSync u)"
    by auto
  from post have "DateNow \<notin> set post" by auto
  from through_last_clock_append [OF this,
      of "trace sc @ [AxiosGet (JStr p), AxiosGet (JStr g), Predict c ''/tryon'' a]"] ts' have
    tl: "through_last_clock (trace s') =
           (trace sc @ [AxiosGet (JStr p), AxiosGet (JStr g)]) @ [Predict c ''/tryon'' a, DateNow]"
    by simp
  from tl ts' have split: "trace s' = through_last_clock (trace s') @ post" by simp
  from r tl have time: "t = clock env (through_last_clock (trace s')) - clock env (trace s @ [DateNow])"
    by simp
  from tl split post have
    "\<exists>pre c a post.
        through_last_clock (trace s') = pre @ [Predict c ''/tryon'' a, DateNow] \<and>
        trace s' = through_last_clock (trace s') @ post \<and>
        (\<forall>e \<in> set post. (\<exists>u. e = AxiosGet u) \<or> (\<exists>u. e = ReadFileSync u))"
    by blast
  with Success time show ?thesis by simp
qed

subsection \<open>What the second listing does\<close>

text \<open>
  The same for the second listing, together with what its downloads and its
  \<^verbatim>\<open>finally\<close> block do to the files, and which paths the block is given.
\<close>

lemma path_join_nonempty: "path_join dir name \<noteq> []"
  by (simp add: path_join_def path_normalize_def Let_def)

lemma downloadToTempFile_unfold:
  "downloadToTempFile env u pre s =
     (case get_result env (trace s @ [AxiosGet (JStr u)]) of
        Inl e \<Rightarrow> (Inl e, s\<lparr>trace := trace s @ [AxiosGet (JStr u)]\<rparr>)
      | Inr d \<Rightarrow>
          (let path = path_join (tmpdir env)
                 (pre @ ''_'' @ show_int (clock env (trace s @ [AxiosGet (JStr u), DateNow])) @ ''.jpg'');
               h = trace s @ [AxiosGet (JStr u), DateNow, WriteFileSync path d]
           in case writeFile_outcome env h of
                Written \<Rightarrow> (Inr path, s\<lparr>trace := h, files := (files s)(path \<mapsto> d)\<rparr>)
              | OpenFailed e \<Rightarrow> (Inl e, s\<lparr>trace := h\<rparr>)
              | WriteFailed e n \<Rightarrow> (Inl e, s\<lparr>trace := h, files := (files s)(path \<mapsto> take n d)\<rparr>)))"
  by (simp add: downloadToTempFile_def try_bind_def prim_defs Let_def
        split: sum.splits write_outcome.splits)

lemma downloadToTempFile_effect:
  assumes "downloadToTempFile env u pre s = (r, s')"
  shows "(\<exists>es. trace s' = trace s @ AxiosGet (JStr u) # es \<and>
            (\<forall>e \<in> set es. \<not> is_predict e \<and> \<not> is_connection e \<and> (\<forall>x. e \<noteq> UnlinkSync x))) \<and>
         (case r of
            Inl e \<Rightarrow> (\<forall>h e n. writeFile_outcome env h \<noteq> WriteFailed e n) \<longrightarrow> files s' = files s
          | Inr path \<Rightarrow> path \<noteq> [] \<and> (\<exists>d. files s' = (files s)(path \<mapsto> d)))"
  using assms unfolding downloadToTempFile_unfold
  by (auto simp: path_join_nonempty Let_def split: sum.splits write_outcome.splits)

lemma downloadToTempFile_Inr:
  assumes "downloadToTempFile env u pre s = (Inr path, s')"
  shows "\<exists>d. get_result env (trace s @ [AxiosGet (JStr u)]) = Inr d \<and>
           path = path_join (tmpdir env)
              (pre @ ''_'' @ show_int (clock env (trace s @ [AxiosGet (JStr u), DateNow])) @ ''.jpg'') \<and>
           s' = s\<lparr>trace := trace s @ [AxiosGet (JStr u), DateNow, WriteFileSync path d],
                  files := (files s)(path \<mapsto> d)\<rparr> \<and>
           writeFile_outcome env (trace s @ [AxiosGet (JStr u), DateNow, WriteFileSync path d]) = Written"
  using assms unfolding downloadToTempFile_unfold
  by (auto simp: Let_def split: sum.splits write_outcome.splits)

lemma downloadToTempFile_raises_readably:
  assumes nn: "no_nullish_rejection env"
  shows "raises_readably (downloadToTempFile env u pre)"
proof (rule raises_readablyI)
  fix s e s'
  assume "downloadToTempFile env u pre s = (Inl e, s')"
  then have "(\<exists>h. get_result env h = Inl e) \<or> (\<exists>h. writeFile_outcome env h = OpenFailed e) \<or>
      (\<exists>h n. writeFile_outcome env h = WriteFailed e n)"
    unfolding downloadToTempFile_unfold
    by (auto simp: Let_def split: sum.splits write_outcome.splits)
  with nn show "\<not> nullish e" unfolding no_nullish_rejection_def by blast
qed

lemma unlink_if_exists_Inl:
  "unlink_if_exists env tp s = (Inl e, s') \<Longrightarrow> \<exists>h. unlink_error env h = Some e"
  by (auto simp: unlink_if_exists_def unlinkSync_def Let_def split: option.splits if_splits)

lemma unlink_if_exists_effect:
  assumes "unlink_if_exists env tp s = (r, s')"
  shows "(\<exists>es. trace s' = trace s @ es \<and> (\<forall>e \<in> set es. \<exists>x. e = UnlinkSync x)) \<and>
         (r = Inl e \<longrightarrow> files s' = files s) \<and>
         ((\<forall>h. unlink_error env h = None) \<and> tp \<noteq> Some [] \<longrightarrow>
            r = Inr () \<and> files s' = (case tp of None \<Rightarrow> files s | Some x \<Rightarrow> (files s)(x := None)))"
  using assms
  by (auto simp: unlink_if_exists_def unlinkSync_def emit_def existsSync_def Let_def
        split: option.splits if_splits)

lemma unlink_if_exists_events:
  assumes "unlink_if_exists env tp s = (r, s')"
  shows "\<exists>es. trace s' = trace s @ es \<and> (\<forall>e \<in> set es. \<exists>x. e = UnlinkSync x \<and> tp = Some x)"
  using assms
  by (auto simp: unlink_if_exists_def unlinkSync_def emit_def Let_def
        split: option.splits if_splits)

lemma cleanup_body:
  assumes "try_bind (unlink_if_exists env pp) (\<lambda>_. unlink_if_exists env gp) s = (Inl e, s')"
  shows "\<exists>h. unlink_error env h = Some e"
proof -
  obtain r1 s1 where u1: "unlink_if_exists env pp s = (r1, s1)" by (cases "unlink_if_exists env pp s")
  show ?thesis
  proof (cases r1)
    case (Inl e1)
    with assms u1 have "unlink_if_exists env pp s = (Inl e, s')" by (simp add: try_bind_def)
    then show ?thesis by (rule unlink_if_exists_Inl)
  next
    case (Inr x)
    with assms u1 have "unlink_if_exists env gp s1 = (Inl e, s')" by (simp add: try_bind_def)
    then show ?thesis by (rule unlink_if_exists_Inl)
  qed
qed

lemma cleanup_returns:
  assumes ok: "\<forall>h e. unlink_error env h = Some e \<longrightarrow> \<not> nullish e"
  shows "\<exists>s'. cleanup env pp gp s = (Inr (), s')"
proof -
  let ?body = "try_bind (unlink_if_exists env pp) (\<lambda>_. unlink_if_exists env gp)"
  obtain r s1 where b: "?body s = (r, s1)" by (cases "?body s")
  show ?thesis
  proof (cases r)
    case (Inr x)
    with b show ?thesis by (simp add: cleanup_def try_catch_def)
  next
    case (Inl e)
    with b cleanup_body [of env pp gp s e s1] ok have "\<not> nullish e" by blast
    from message_Inr [OF this] obtain v where "message e = Inr v" by blast
    with b Inl show ?thesis by (simp add: cleanup_def try_catch_def try_bind_def lift_def)
  qed
qed


lemma cleanup_effect:
  assumes "cleanup env pp gp s = (r, s')"
  shows "(\<exists>es. trace s' = trace s @ es \<and> (\<forall>e \<in> set es. \<exists>x. e = UnlinkSync x)) \<and>
         ((\<forall>h. unlink_error env h = None) \<and> pp \<noteq> Some [] \<and> gp \<noteq> Some [] \<longrightarrow>
            (\<forall>x. files s' x = (if Some x = pp \<or> Some x = gp then None else files s x)))"
proof -
  obtain r1 s1 where u1: "unlink_if_exists env pp s = (r1, s1)" by (cases "unlink_if_exists env pp s")
  obtain r2 s2 where u2: "unlink_if_exists env gp s1 = (r2, s2)" by (cases "unlink_if_exists env gp s1")
  from assms u1 u2 have s': "s' = (case r1 of Inl _ \<Rightarrow> s1 | Inr _ \<Rightarrow> s2)"
    by (auto simp: cleanup_def try_catch_def try_bind_def lift_def split: sum.splits)
  from unlink_if_exists_effect [OF u1] obtain es1 where
    t1: "trace s1 = trace s @ es1" "\<forall>e \<in> set es1. \<exists>x. e = UnlinkSync x" by blast
  from unlink_if_exists_effect [OF u2] obtain es2 where
    t2: "trace s2 = trace s1 @ es2" "\<forall>e \<in> set es2. \<exists>x. e = UnlinkSync x" by blast
  have A: "\<exists>es. trace s' = trace s @ es \<and> (\<forall>e \<in> set es. \<exists>x. e = UnlinkSync x)"
  proof (cases r1)
    case (Inl e)
    with s' t1 show ?thesis by auto
  next
    case (Inr x)
    with s' t1 t2 have "trace s' = trace s @ (es1 @ es2)" by simp
    moreover from t1 t2 have "\<forall>e \<in> set (es1 @ es2). \<exists>x. e = UnlinkSync x" by auto
    ultimately show ?thesis by blast
  qed
  have B: "\<forall>x. files s' x = (if Some x = pp \<or> Some x = gp then None else files s x)"
    if ok: "\<forall>h. unlink_error env h = None" and pp: "pp \<noteq> Some []" and gp: "gp \<noteq> Some []"
  proof -
    from unlink_if_exists_effect [OF u1] ok pp have
      r1: "r1 = Inr ()" and f1: "files s1 = (case pp of None \<Rightarrow> files s | Some x \<Rightarrow> (files s)(x := None))"
      by auto
    from unlink_if_exists_effect [OF u2] ok gp have
      f2: "files s2 = (case gp of None \<Rightarrow> files s1 | Some x \<Rightarrow> (files s1)(x := None))"
      by auto
    from s' r1 have "s' = s2" by simp
    with f1 f2 show ?thesis by (auto split: option.splits)
  qed
  from A B show ?thesis by blast
qed

lemma cleanup_events:
  assumes "cleanup env pp gp s = (r, s')"
  shows "\<exists>es. trace s' = trace s @ es \<and>
           (\<forall>e \<in> set es. \<exists>x. e = UnlinkSync x \<and> (pp = Some x \<or> gp = Some x))"
proof -
  obtain r1 s1 where u1: "unlink_if_exists env pp s = (r1, s1)" by (cases "unlink_if_exists env pp s")
  obtain r2 s2 where u2: "unlink_if_exists env gp s1 = (r2, s2)" by (cases "unlink_if_exists env gp s1")
  from assms u1 u2 have s': "s' = (case r1 of Inl _ \<Rightarrow> s1 | Inr _ \<Rightarrow> s2)"
    by (auto simp: cleanup_def try_catch_def try_bind_def lift_def split: sum.splits)
  from unlink_if_exists_events [OF u1] obtain es1 where
    t1: "trace s1 = trace s @ es1" "\<forall>e \<in> set es1. \<exists>x. e = UnlinkSync x \<and> pp = Some x" by blast
  from unlink_if_exists_events [OF u2] obtain es2 where
    t2: "trace s2 = trace s1 @ es2" "\<forall>e \<in> set es2. \<exists>x. e = UnlinkSync x \<and> gp = Some x" by blast
  show ?thesis
  proof (cases r1)
    case (Inl e)
    with s' t1 show ?thesis by auto
  next
    case (Inr x)
    with s' t1 t2 have "trace s' = trace s @ (es1 @ es2)" by simp
    moreover from t1 t2 have
      "\<forall>e \<in> set (es1 @ es2). \<exists>x. e = UnlinkSync x \<and> (pp = Some x \<or> gp = Some x)" by auto
    ultimately show ?thesis by blast
  qed
qed

lemma try_block_tempfile_effect:
  assumes run: "try_block_tempfile env p g t0 s = ((r, pp, gp), s')"
  shows "(\<exists>es. trace s' = trace s @ ClientConnect SPACE_ID (HUGGINGFACE_API_KEY env) # es) \<and>
         ((\<forall>h e n. writeFile_outcome env h \<noteq> WriteFailed e n) \<longrightarrow>
            (\<forall>x. Some x \<noteq> pp \<and> Some x \<noteq> gp \<longrightarrow> files s' x = files s x)) \<and>
         pp \<noteq> Some [] \<and> gp \<noteq> Some []"
proof -
  let ?cc = "ClientConnect SPACE_ID (HUGGINGFACE_API_KEY env)"
  let ?s1 = "s\<lparr>trace := trace s @ [?cc]\<rparr>"
  have cc: "Client_connect env SPACE_ID (HUGGINGFACE_API_KEY env) s =
      (connect_result env (trace s @ [?cc]), ?s1)"
    by (simp add: Client_connect_def emit_def)
  show ?thesis
  proof (cases "connect_result env (trace s @ [?cc])")
    case (Inl e)
    with run cc show ?thesis by (auto simp: try_block_tempfile_def)
  next
    case (Inr c)
    obtain r2 s2 where d1: "downloadToTempFile env p ''person'' ?s1 = (r2, s2)"
      by (cases "downloadToTempFile env p ''person'' ?s1")
    from downloadToTempFile_effect [OF d1] obtain es2 where
      t2: "trace s2 = trace s @ ?cc # es2" by auto
    show ?thesis
    proof (cases r2)
      case (Inl e)
      with downloadToTempFile_effect [OF d1] have
        "(\<forall>h e n. writeFile_outcome env h \<noteq> WriteFailed e n) \<longrightarrow> files s2 = files s" by simp
      with run cc Inr d1 Inl t2 show ?thesis by (auto simp: try_block_tempfile_def)
    next
      case path1: (Inr path1)
      with downloadToTempFile_effect [OF d1] obtain d where
        f2: "path1 \<noteq> []" "files s2 = (files s)(path1 \<mapsto> d)" by auto
      obtain r3 s3 where d2: "downloadToTempFile env g ''garment'' s2 = (r3, s3)"
        by (cases "downloadToTempFile env g ''garment'' s2")
      from downloadToTempFile_effect [OF d2] t2 obtain es3 where
        t3: "trace s3 = trace s @ ?cc # es3" by auto
      show ?thesis
      proof (cases r3)
        case (Inl e)
        with downloadToTempFile_effect [OF d2] have
          "(\<forall>h e n. writeFile_outcome env h \<noteq> WriteFailed e n) \<longrightarrow> files s3 = files s2" by simp
        with run cc Inr d1 path1 d2 Inl t3 f2 show ?thesis
          by (auto simp: try_block_tempfile_def)
      next
        case path2: (Inr path2)
        with downloadToTempFile_effect [OF d2] obtain d' where
          f3: "path2 \<noteq> []" "files s3 = (files s2)(path2 \<mapsto> d')" by auto
        from run cc Inr d1 path1 d2 path2 obtain a where
          rc: "try_bind (client_predict env c ''/tryon'' a) (read_result env t0) s3 = (r, s')"
          and v: "pp = Some path1" "gp = Some path2"
          by (auto simp: try_block_tempfile_def split: prod.splits)
        from quietD [OF remote_call_quiet [of "\<lambda>_. True"] rc] obtain es where
          "s' = s3\<lparr>trace := trace s3 @ es\<rparr>" by auto
        with t3 f2 f3 v show ?thesis by auto
      qed
    qed
  qed
qed

lemma try_block_tempfile_written:
  assumes run: "try_block_tempfile env p g t0 s = ((r, pp, gp), s')"
  shows "(\<exists>es. trace s' = trace s @ es \<and> (\<forall>e \<in> set es. \<forall>x. e \<noteq> UnlinkSync x)) \<and>
         (\<forall>x. pp = Some x \<or> gp = Some x \<longrightarrow>
            (\<exists>h d rest. trace s' = trace s @ h @ WriteFileSync x d # rest \<and>
               writeFile_outcome env (trace s @ h @ [WriteFileSync x d]) = Written))"
proof -
  let ?cc = "ClientConnect SPACE_ID (HUGGINGFACE_API_KEY env)"
  let ?s1 = "s\<lparr>trace := trace s @ [?cc]\<rparr>"
  have cc: "Client_connect env SPACE_ID (HUGGINGFACE_API_KEY env) s =
      (connect_result env (trace s @ [?cc]), ?s1)"
    by (simp add: Client_connect_def emit_def)
  show ?thesis
  proof (cases "connect_result env (trace s @ [?cc])")
    case (Inl e)
    with run cc have "trace s' = trace s @ [?cc]" "pp = None" "gp = None"
      by (auto simp: try_block_tempfile_def)
    then show ?thesis by simp
  next
    case (Inr c)
    obtain r2 s2 where d1: "downloadToTempFile env p ''person'' ?s1 = (r2, s2)"
      by (cases "downloadToTempFile env p ''person'' ?s1")
    show ?thesis
    proof (cases r2)
      case (Inl e)
      from downloadToTempFile_effect [OF d1] obtain es2 where
        "trace s2 = trace s @ ?cc # AxiosGet (JStr p) # es2" "\<forall>e \<in> set es2. \<forall>x. e \<noteq> UnlinkSync x"
        by auto
      moreover from run cc Inr d1 Inl have "s' = s2" "pp = None" "gp = None"
        by (auto simp: try_block_tempfile_def)
      ultimately show ?thesis by simp
    next
      case path1: (Inr path1)
      from downloadToTempFile_Inr [OF d1 [unfolded path1]] obtain d where
        t2: "trace s2 = trace s @ [?cc, AxiosGet (JStr p), DateNow, WriteFileSync path1 d]" and
        w1: "writeFile_outcome env
               (trace s @ [?cc, AxiosGet (JStr p), DateNow] @ [WriteFileSync path1 d]) = Written"
        by auto
      obtain r3 s3 where d2: "downloadToTempFile env g ''garment'' s2 = (r3, s3)"
        by (cases "downloadToTempFile env g ''garment'' s2")
      show ?thesis
      proof (cases r3)
        case (Inl e)
        from downloadToTempFile_effect [OF d2] t2 obtain es3 where
          t3: "trace s3 = trace s @ [?cc, AxiosGet (JStr p), DateNow] @
                 WriteFileSync path1 d # AxiosGet (JStr g) # es3" and
          n3: "\<forall>e \<in> set es3. \<forall>x. e \<noteq> UnlinkSync x"
          by auto
        from run cc Inr d1 path1 d2 Inl have v: "s' = s3" "pp = Some path1" "gp = None"
          by (auto simp: try_block_tempfile_def)
        from t3 n3 v have A: "\<exists>es. trace s' = trace s @ es \<and> (\<forall>e \<in> set es. \<forall>x. e \<noteq> UnlinkSync x)"
          by auto
        from t3 w1 v have B: "\<exists>h d rest. trace s' = trace s @ h @ WriteFileSync path1 d # rest \<and>
               writeFile_outcome env (trace s @ h @ [WriteFileSync path1 d]) = Written"
          by blast
        from A B v show ?thesis by simp
      next
        case path2: (Inr path2)
        from downloadToTempFile_Inr [OF d2 [unfolded path2]] t2 obtain d' where
          t3: "trace s3 = trace s @ [?cc, AxiosGet (JStr p), DateNow, WriteFileSync path1 d,
                  AxiosGet (JStr g), DateNow, WriteFileSync path2 d']" and
          w2: "writeFile_outcome env
                 (trace s @ [?cc, AxiosGet (JStr p), DateNow, WriteFileSync path1 d,
                    AxiosGet (JStr g), DateNow] @ [WriteFileSync path2 d']) = Written"
          by auto
        from run cc Inr d1 path1 d2 path2 obtain a where
          rc: "try_bind (client_predict env c ''/tryon'' a) (read_result env t0) s3 = (r, s')"
          and v: "pp = Some path1" "gp = Some path2"
          by (auto simp: try_block_tempfile_def split: prod.splits)
        from quietD [OF remote_call_quiet [of "\<lambda>e. \<forall>x. e \<noteq> UnlinkSync x"] rc] obtain es where
          t4: "trace s' = trace s3 @ es" and n4: "\<forall>e \<in> set es. \<forall>x. e \<noteq> UnlinkSync x"
          by auto
        from t3 t4 n4 have A: "\<exists>es. trace s' = trace s @ es \<and> (\<forall>e \<in> set es. \<forall>x. e \<noteq> UnlinkSync x)"
          by auto
        from t3 t4 have "trace s' = trace s @ [?cc, AxiosGet (JStr p), DateNow] @
            WriteFileSync path1 d # ([AxiosGet (JStr g), DateNow, WriteFileSync path2 d'] @ es)"
          by simp
        with w1 have B1: "\<exists>h d rest. trace s' = trace s @ h @ WriteFileSync path1 d # rest \<and>
               writeFile_outcome env (trace s @ h @ [WriteFileSync path1 d]) = Written"
          by blast
        from t3 t4 have "trace s' = trace s @ [?cc, AxiosGet (JStr p), DateNow, WriteFileSync path1 d,
                    AxiosGet (JStr g), DateNow] @ WriteFileSync path2 d' # es"
          by simp
        with w2 have B2: "\<exists>h d rest. trace s' = trace s @ h @ WriteFileSync path2 d # rest \<and>
               writeFile_outcome env (trace s @ h @ [WriteFileSync path2 d]) = Written"
          by blast
        from A B1 B2 v show ?thesis by auto
      qed
    qed
  qed
qed

lemma try_block_tempfile_raises:
  assumes nn: "no_nullish_rejection env"
    and run: "try_block_tempfile env p g t0 s = ((Inl e, pp, gp), s')"
  shows "\<not> nullish e"
proof -
  let ?cc = "Client_connect env SPACE_ID (HUGGINGFACE_API_KEY env) s"
  obtain r1 s1 where cc: "?cc = (r1, s1)" by (cases ?cc)
  show ?thesis
  proof (cases r1)
    case (Inl e1)
    with run cc have "?cc = (Inl e, s1)" by (simp add: try_block_tempfile_def)
    then show ?thesis by (rule raises_readablyD [OF raises_readably_Client_connect [OF nn]])
  next
    case (Inr c)
    obtain r2 s2 where d1: "downloadToTempFile env p ''person'' s1 = (r2, s2)"
      by (cases "downloadToTempFile env p ''person'' s1")
    show ?thesis
    proof (cases r2)
      case (Inl e2)
      with run cc Inr d1 have "downloadToTempFile env p ''person'' s1 = (Inl e, s2)"
        by (simp add: try_block_tempfile_def)
      then show ?thesis by (rule raises_readablyD [OF downloadToTempFile_raises_readably [OF nn]])
    next
      case path1: (Inr path1)
      obtain r3 s3 where d2: "downloadToTempFile env g ''garment'' s2 = (r3, s3)"
        by (cases "downloadToTempFile env g ''garment'' s2")
      show ?thesis
      proof (cases r3)
        case (Inl e3)
        with run cc Inr d1 path1 d2 have "downloadToTempFile env g ''garment'' s2 = (Inl e, s3)"
          by (simp add: try_block_tempfile_def)
        then show ?thesis by (rule raises_readablyD [OF downloadToTempFile_raises_readably [OF nn]])
      next
        case path2: (Inr path2)
        with run cc Inr d1 path1 d2 obtain a s4 where
          "try_bind (client_predict env c ''/tryon'' a) (read_result env t0) s3 = (Inl e, s4)"
          by (auto simp: try_block_tempfile_def split: prod.splits)
        then show ?thesis by (rule raises_readablyD [OF remote_call_raises_readably [OF nn]])
      qed
    qed
  qed
qed

lemma try_block_tempfile_Inr:
  assumes run: "try_block_tempfile env p g t0 s = ((Inr r, pp, gp), s')"
  shows "\<exists>c pb gb path1 path2 result x rest buf sm.
     pp = Some path1 \<and> gp = Some path2 \<and>
     get_result env (trace s @ [ClientConnect SPACE_ID (HUGGINGFACE_API_KEY env), AxiosGet (JStr p)])
       = Inr pb \<and>
     get_result env (trace s @ [ClientConnect SPACE_ID (HUGGINGFACE_API_KEY env), AxiosGet (JStr p),
        DateNow, WriteFileSync path1 pb, AxiosGet (JStr g)]) = Inr gb \<and>
     trace sm = trace s @
       [ClientConnect SPACE_ID (HUGGINGFACE_API_KEY env),
        AxiosGet (JStr p), DateNow, WriteFileSync path1 pb,
        AxiosGet (JStr g), DateNow, WriteFileSync path2 gb,
        Predict c ''/tryon''
          (Named
             [(''dict'', ImageEditor (handle_file_path path1) [] None),
              (''garm_img'', File (handle_file_path path2)),
              (''garment_des'', Text ''A stylish garment''),
              (''is_checked'', Flag True),
              (''is_checked_crop'', Flag False),
              (''denoise_steps'', Number 30),
              (''seed'', Number 42)]),
        DateNow] \<and>
     predict_result env (butlast (trace sm)) = Inr result \<and>
     get_prop result ''data'' = Inr (JArr (x # rest)) \<and>
     JNull \<notin> set (x # rest) \<and>
     normalizeOutput env x sm = (Inr buf, s') \<and>
     r = Success buf (clock env (trace sm) - t0)"
proof -
  let ?cc = "ClientConnect SPACE_ID (HUGGINGFACE_API_KEY env)"
  let ?s1 = "s\<lparr>trace := trace s @ [?cc]\<rparr>"
  have cc: "Client_connect env SPACE_ID (HUGGINGFACE_API_KEY env) s =
      (connect_result env (trace s @ [?cc]), ?s1)"
    by (simp add: Client_connect_def emit_def)
  from run cc obtain c where c: "connect_result env (trace s @ [?cc]) = Inr c"
    by (cases "connect_result env (trace s @ [?cc])") (auto simp: try_block_tempfile_def)
  obtain r2 s2 where d1: "downloadToTempFile env p ''person'' ?s1 = (r2, s2)"
    by (cases "downloadToTempFile env p ''person'' ?s1")
  from run cc c d1 obtain path1 where r2: "r2 = Inr path1"
    by (cases r2) (auto simp: try_block_tempfile_def)
  obtain r3 s3 where d2: "downloadToTempFile env g ''garment'' s2 = (r3, s3)"
    by (cases "downloadToTempFile env g ''garment'' s2")
  from run cc c d1 r2 d2 obtain path2 where r3: "r3 = Inr path2"
    by (cases r3) (auto simp: try_block_tempfile_def)
  let ?a = "Named
             [(''dict'', ImageEditor (handle_file_path path1) [] None),
              (''garm_img'', File (handle_file_path path2)),
              (''garment_des'', Text ''A stylish garment''),
              (''is_checked'', Flag True),
              (''is_checked_crop'', Flag False),
              (''denoise_steps'', Number 30),
              (''seed'', Number 42)]"
  from run cc c d1 r2 d2 r3 have
    rc: "try_bind (client_predict env c ''/tryon'' ?a) (read_result env t0) s3 = (Inr r, s')"
    and v: "pp = Some path1" "gp = Some path2"
    by (auto simp: try_block_tempfile_def split: prod.splits)
  from downloadToTempFile_Inr [OF d1 [unfolded r2]] obtain pb where
    pb: "get_result env (trace s @ [?cc, AxiosGet (JStr p)]) = Inr pb" and
    s2: "trace s2 = trace s @ [?cc, AxiosGet (JStr p), DateNow, WriteFileSync path1 pb]"
    by auto
  from downloadToTempFile_Inr [OF d2 [unfolded r3]] s2 obtain gb where
    gb: "get_result env (trace s @ [?cc, AxiosGet (JStr p), DateNow, WriteFileSync path1 pb,
            AxiosGet (JStr g)]) = Inr gb" and
    s3: "trace s3 = trace s @ [?cc, AxiosGet (JStr p), DateNow, WriteFileSync path1 pb,
            AxiosGet (JStr g), DateNow, WriteFileSync path2 gb]"
    by auto
  from rc obtain result where
    res: "predict_result env (trace (emit (Predict c ''/tryon'' ?a) s3)) = Inr result" and
    rr: "read_result env t0 result (emit (Predict c ''/tryon'' ?a) s3) = (Inr r, s')"
    by (auto simp: try_bind_Inr client_predict_def Let_def)
  from read_result_Inr [OF rr] obtain x rest buf where
    d: "get_prop result ''data'' = Inr (JArr (x # rest))" and
    nn: "JNull \<notin> set (x # rest)" and
    n: "normalizeOutput env x (emit DateNow (emit (Predict c ''/tryon'' ?a) s3)) = (Inr buf, s')" and
    r: "r = Success buf (clock env (trace (emit (Predict c ''/tryon'' ?a) s3) @ [DateNow]) - t0)"
    by blast
  let ?sm = "emit DateNow (emit (Predict c ''/tryon'' ?a) s3)"
  from s3 have sm: "trace ?sm = trace s @
       [?cc, AxiosGet (JStr p), DateNow, WriteFileSync path1 pb,
        AxiosGet (JStr g), DateNow, WriteFileSync path2 gb, Predict c ''/tryon'' ?a, DateNow]"
    by (simp add: emit_def)
  from res s3 have res': "predict_result env (butlast (trace ?sm)) = Inr result"
    by (simp add: emit_def butlast_append)
  from r have r': "r = Success buf (clock env (trace ?sm) - t0)" by (simp add: emit_def)
  from v pb gb sm res' d nn n r' show ?thesis
    apply -
    apply (rule exI [of _ c])
    apply (rule exI [of _ pb])
    apply (rule exI [of _ gb])
    apply (rule exI [of _ path1])
    apply (rule exI [of _ path2])
    apply (rule exI [of _ result])
    apply (rule exI [of _ x])
    apply (rule exI [of _ rest])
    apply (rule exI [of _ buf])
    apply (rule exI [of _ ?sm])
    apply simp
    done
qed

lemma attempt_tempfile_unfold:
  "attempt_tempfile env p g s =
     (case try_block_tempfile env p g (clock env (trace s @ [DateNow])) (emit DateNow s) of
        ((r, pp, gp), s2) \<Rightarrow>
          (case r of
             Inr x \<Rightarrow> ((Inr x, pp, gp), s2)
           | Inl e \<Rightarrow>
               (case message e of
                  Inl e' \<Rightarrow> ((Inl e', pp, gp), s2)
                | Inr m \<Rightarrow>
                    ((Inr (Failure (message_or m ''Try-on processing failed'')
                             (clock env (trace s2 @ [DateNow]) - clock env (trace s @ [DateNow]))),
                      pp, gp),
                     emit DateNow s2))))"
  by (simp add: attempt_tempfile_def Date_now_def emit_def try_catch_def try_bind_def lift_def
        catch_block_tempfile_def split: prod.splits sum.splits)

lemma attempt_tempfile_effect:
  assumes run: "attempt_tempfile env p g w = ((outcome, pp, gp), s3)"
  shows "(\<exists>es. trace s3 = trace w @ DateNow # ClientConnect SPACE_ID (HUGGINGFACE_API_KEY env) # es) \<and>
         ((\<forall>h e n. writeFile_outcome env h \<noteq> WriteFailed e n) \<longrightarrow>
            (\<forall>x. Some x \<noteq> pp \<and> Some x \<noteq> gp \<longrightarrow> files s3 x = files w x)) \<and>
         pp \<noteq> Some [] \<and> gp \<noteq> Some [] \<and>
         (no_nullish_rejection env \<longrightarrow> (\<exists>r. outcome = Inr r))"
proof -
  let ?t0 = "clock env (trace w @ [DateNow])"
  obtain r pp' gp' s2 where
    tb: "try_block_tempfile env p g ?t0 (emit DateNow w) = ((r, pp', gp'), s2)"
    by (metis surj_pair)
  from run tb have v: "pp' = pp" "gp' = gp" and s3: "s3 = s2 \<or> s3 = emit DateNow s2"
    by (auto simp: attempt_tempfile_unfold split: sum.splits)
  from try_block_tempfile_effect [OF tb] v obtain es where
    t2: "trace s2 = trace w @ DateNow # ClientConnect SPACE_ID (HUGGINGFACE_API_KEY env) # es" and
    f2: "(\<forall>h e n. writeFile_outcome env h \<noteq> WriteFailed e n) \<longrightarrow>
            (\<forall>x. Some x \<noteq> pp \<and> Some x \<noteq> gp \<longrightarrow> files s2 x = files w x)" and
    ne: "pp \<noteq> Some []" "gp \<noteq> Some []"
    by (auto simp: emit_def)
  from s3 t2 have A: "\<exists>es. trace s3 =
      trace w @ DateNow # ClientConnect SPACE_ID (HUGGINGFACE_API_KEY env) # es"
    by (auto simp: emit_def)
  from s3 have "files s3 = files s2" by (auto simp: emit_def)
  with f2 have B: "(\<forall>h e n. writeFile_outcome env h \<noteq> WriteFailed e n) \<longrightarrow>
            (\<forall>x. Some x \<noteq> pp \<and> Some x \<noteq> gp \<longrightarrow> files s3 x = files w x)" by simp
  have C: "\<exists>r. outcome = Inr r" if nn: "no_nullish_rejection env"
  proof (cases r)
    case (Inr x)
    with run tb show ?thesis by (auto simp: attempt_tempfile_unfold)
  next
    case (Inl e)
    with try_block_tempfile_raises [OF nn] tb have "\<not> nullish e" by blast
    from message_Inr [OF this] obtain m where "message e = Inr m" by blast
    with run tb Inl show ?thesis by (auto simp: attempt_tempfile_unfold)
  qed
  from A B ne C show ?thesis by blast
qed

lemma attempt_tempfile_written:
  assumes run: "attempt_tempfile env p g w = ((outcome, pp, gp), s3)"
  shows "(\<exists>es. trace s3 = trace w @ es \<and> (\<forall>e \<in> set es. \<forall>x. e \<noteq> UnlinkSync x)) \<and>
         (\<forall>x. pp = Some x \<or> gp = Some x \<longrightarrow>
            (\<exists>h d rest. trace s3 = trace w @ h @ WriteFileSync x d # rest \<and>
               writeFile_outcome env (trace w @ h @ [WriteFileSync x d]) = Written))"
proof -
  let ?t0 = "clock env (trace w @ [DateNow])"
  obtain r pp' gp' s2 where
    tb: "try_block_tempfile env p g ?t0 (emit DateNow w) = ((r, pp', gp'), s2)"
    by (metis surj_pair)
  from run tb have v: "pp' = pp" "gp' = gp" and s3: "s3 = s2 \<or> s3 = emit DateNow s2"
    by (auto simp: attempt_tempfile_unfold split: sum.splits)
  from s3 obtain tl where tl: "trace s3 = trace s2 @ tl" "\<forall>e \<in> set tl. \<forall>x. e \<noteq> UnlinkSync x"
    by (auto simp: emit_def)
  from try_block_tempfile_written [OF tb] v obtain es where
    t2: "trace s2 = trace w @ DateNow # es" and n2: "\<forall>e \<in> set es. \<forall>x. e \<noteq> UnlinkSync x" and
    wr: "\<forall>x. pp = Some x \<or> gp = Some x \<longrightarrow>
            (\<exists>h d rest. trace s2 = trace w @ [DateNow] @ h @ WriteFileSync x d # rest \<and>
               writeFile_outcome env (trace w @ [DateNow] @ h @ [WriteFileSync x d]) = Written)"
    by (auto simp: emit_def)
  from t2 n2 tl have "trace s3 = trace w @ (DateNow # es @ tl)"
    "\<forall>e \<in> set (DateNow # es @ tl). \<forall>x. e \<noteq> UnlinkSync x" by auto
  then have A: "\<exists>es. trace s3 = trace w @ es \<and> (\<forall>e \<in> set es. \<forall>x. e \<noteq> UnlinkSync x)" by blast
  have B: "\<exists>h d rest. trace s3 = trace w @ h @ WriteFileSync x d # rest \<and>
               writeFile_outcome env (trace w @ h @ [WriteFileSync x d]) = Written"
    if "pp = Some x \<or> gp = Some x" for x
  proof -
    from wr that obtain h d rest where
      "trace s2 = trace w @ [DateNow] @ h @ WriteFileSync x d # rest"
      "writeFile_outcome env (trace w @ [DateNow] @ h @ [WriteFileSync x d]) = Written"
      by blast
    with tl have "trace s3 = trace w @ (DateNow # h) @ WriteFileSync x d # (rest @ tl)"
      "writeFile_outcome env (trace w @ (DateNow # h) @ [WriteFileSync x d]) = Written"
      by simp_all
    then show ?thesis by blast
  qed
  from A B show ?thesis by blast
qed

lemma performTryOn_tempfile_snd:
  "attempt_tempfile env p g w = ((outcome, pp, gp), s3) \<Longrightarrow>
     snd (performTryOn_tempfile env p g w) = snd (cleanup env pp gp s3)"
  by (simp add: performTryOn_tempfile_def split: prod.splits sum.splits)

lemma performTryOn_tempfile_fst:
  "attempt_tempfile env p g w = ((outcome, pp, gp), s3) \<Longrightarrow> cleanup env pp gp s3 = (Inr u, s4) \<Longrightarrow>
     performTryOn_tempfile env p g w = (outcome, s4)"
  by (simp add: performTryOn_tempfile_def)



lemma performTryOn_tempfile_Success:
  assumes run: "performTryOn_tempfile env p g w = (Inr (Success buf t), w')"
  shows "\<exists>pp gp s2 rc.
     try_block_tempfile env p g (clock env (trace w @ [DateNow])) (emit DateNow w)
        = ((Inr (Success buf t), pp, gp), s2) \<and>
     cleanup env pp gp s2 = (rc, w')"
proof -
  let ?t0 = "clock env (trace w @ [DateNow])"
  obtain r pp gp s2 where
    tb: "try_block_tempfile env p g ?t0 (emit DateNow w) = ((r, pp, gp), s2)"
    by (metis surj_pair)
  from run tb have "r = Inr (Success buf t)" and "\<exists>rc. cleanup env pp gp s2 = (rc, w')"
    by (auto simp: performTryOn_tempfile_def attempt_tempfile_unfold split: prod.splits sum.splits)
  with tb show ?thesis by auto
qed

lemma performTryOn_tempfile_Failure:
  assumes run: "performTryOn_tempfile env p g w = (Inr (Failure m t), w')"
  shows "\<exists>e v pp gp s2 rc.
     try_block_tempfile env p g (clock env (trace w @ [DateNow])) (emit DateNow w)
        = ((Inl e, pp, gp), s2) \<and>
     message e = Inr v \<and> m = message_or v ''Try-on processing failed'' \<and>
     cleanup env pp gp (emit DateNow s2) = (rc, w') \<and>
     t = clock env (trace s2 @ [DateNow]) - clock env (trace w @ [DateNow])"
proof -
  let ?t0 = "clock env (trace w @ [DateNow])"
  obtain r pp gp s2 where
    tb: "try_block_tempfile env p g ?t0 (emit DateNow w) = ((r, pp, gp), s2)"
    by (metis surj_pair)
  show ?thesis
  proof (cases r)
    case (Inr x)
    with try_block_tempfile_Inr [of env p g ?t0 "emit DateNow w" x pp gp s2] tb
    obtain b t' where "x = Success b t'" by blast
    with run tb Inr show ?thesis
      by (auto simp: performTryOn_tempfile_def attempt_tempfile_unfold split: prod.splits sum.splits)
  next
    case (Inl e)
    with run tb show ?thesis
      by (auto simp: performTryOn_tempfile_def attempt_tempfile_unfold split: prod.splits sum.splits)
  qed
qed

lemma tempfile_connects_first:
  "\<exists>es. added w (snd (performTryOn_tempfile env p g w)) =
          DateNow # ClientConnect SPACE_ID (HUGGINGFACE_API_KEY env) # es"
proof -
  obtain outcome pp gp s3 where at: "attempt_tempfile env p g w = ((outcome, pp, gp), s3)"
    by (metis surj_pair)
  obtain rc s4 where cl: "cleanup env pp gp s3 = (rc, s4)" by (cases "cleanup env pp gp s3")
  from attempt_tempfile_effect [OF at] obtain es' where
    "trace s3 = trace w @ DateNow # ClientConnect SPACE_ID (HUGGINGFACE_API_KEY env) # es'"
    by blast
  moreover from cleanup_effect [OF cl] obtain es'' where "trace s4 = trace s3 @ es''" by blast
  ultimately have "trace s4 =
      trace w @ DateNow # ClientConnect SPACE_ID (HUGGINGFACE_API_KEY env) # (es' @ es'')"
    by simp
  with performTryOn_tempfile_snd [OF at] cl show ?thesis by (simp add: added_def)
qed

lemma tryon_remote_call_second:
  assumes run: "performTryOn_tempfile env p g w = (Inr (Success buf t), w')"
  shows "\<exists>c pb gb pp gp result x rest post (wm :: world).
       added w w' =
         [DateNow,
          ClientConnect SPACE_ID (HUGGINGFACE_API_KEY env),
          AxiosGet (JStr p), DateNow, WriteFileSync pp pb,
          AxiosGet (JStr g), DateNow, WriteFileSync gp gb,
          Predict c ''/tryon''
            (Named
               [(''dict'', ImageEditor (handle_file_path pp) [] None),
                (''garm_img'', File (handle_file_path gp)),
                (''garment_des'', Text ''A stylish garment''),
                (''is_checked'', Flag True),
                (''is_checked_crop'', Flag False),
                (''denoise_steps'', Number 30),
                (''seed'', Number 42)]),
          DateNow] @ post \<and>
       (\<forall>e \<in> set post. \<not> is_predict e) \<and>
       get_result env (trace w @ [DateNow, ClientConnect SPACE_ID (HUGGINGFACE_API_KEY env),
          AxiosGet (JStr p)]) = Inr pb \<and>
       get_result env (trace w @ [DateNow, ClientConnect SPACE_ID (HUGGINGFACE_API_KEY env),
          AxiosGet (JStr p), DateNow, WriteFileSync pp pb, AxiosGet (JStr g)]) = Inr gb \<and>
       trace wm @ post = trace w' \<and>
       predict_result env (butlast (trace wm)) = Inr result \<and>
       get_prop result ''data'' = Inr (JArr (x # rest)) \<and>
       JNull \<notin> set (x # rest) \<and>
       fst (normalizeOutput env x wm) = Inr buf"
proof -
  from performTryOn_tempfile_Success [OF run] obtain pp gp s2 rc where
    tb: "try_block_tempfile env p g (clock env (trace w @ [DateNow])) (emit DateNow w)
        = ((Inr (Success buf t), pp, gp), s2)" and
    cl: "cleanup env pp gp s2 = (rc, w')" by blast
  from try_block_tempfile_Inr [OF tb] obtain c pb gb path1 path2 result x rest buf' sm where
    pb: "get_result env (trace (emit DateNow w) @
          [ClientConnect SPACE_ID (HUGGINGFACE_API_KEY env), AxiosGet (JStr p)]) = Inr pb" and
    gb: "get_result env (trace (emit DateNow w) @
          [ClientConnect SPACE_ID (HUGGINGFACE_API_KEY env), AxiosGet (JStr p),
           DateNow, WriteFileSync path1 pb, AxiosGet (JStr g)]) = Inr gb" and
    sm: "trace sm = trace (emit DateNow w) @
       [ClientConnect SPACE_ID (HUGGINGFACE_API_KEY env),
        AxiosGet (JStr p), DateNow, WriteFileSync path1 pb,
        AxiosGet (JStr g), DateNow, WriteFileSync path2 gb,
        Predict c ''/tryon''
          (Named
             [(''dict'', ImageEditor (handle_file_path path1) [] None),
              (''garm_img'', File (handle_file_path path2)),
              (''garment_des'', Text ''A stylish garment''),
              (''is_checked'', Flag True),
              (''is_checked_crop'', Flag False),
              (''denoise_steps'', Number 30),
              (''seed'', Number 42)]),
        DateNow]" and
    res: "predict_result env (butlast (trace sm)) = Inr result" and
    d: "get_prop result ''data'' = Inr (JArr (x # rest))" and
    nn: "JNull \<notin> set (x # rest)" and
    n: "normalizeOutput env x sm = (Inr buf', s2)" and
    r: "Success buf t = Success buf' (clock env (trace sm) - clock env (trace w @ [DateNow]))"
    by blast
  from quietD [OF quiet_normalizeOutput [of "\<lambda>e. \<not> is_predict e"] n] obtain es1 where
    s2: "trace s2 = trace sm @ es1" and es1: "\<forall>e \<in> set es1. \<not> is_predict e"
    by auto
  from cleanup_effect [OF cl] obtain es2 where
    w': "trace w' = trace s2 @ es2" and es2: "\<forall>e \<in> set es2. \<exists>x. e = UnlinkSync x" by blast
  from es1 es2 have post: "\<forall>e \<in> set (es1 @ es2). \<not> is_predict e" by auto
  from s2 w' have tw: "trace sm @ (es1 @ es2) = trace w'" by simp
  from tw sm have ad: "added w w' =
         [DateNow,
          ClientConnect SPACE_ID (HUGGINGFACE_API_KEY env),
          AxiosGet (JStr p), DateNow, WriteFileSync path1 pb,
          AxiosGet (JStr g), DateNow, WriteFileSync path2 gb,
          Predict c ''/tryon''
            (Named
               [(''dict'', ImageEditor (handle_file_path path1) [] None),
                (''garm_img'', File (handle_file_path path2)),
                (''garment_des'', Text ''A stylish garment''),
                (''is_checked'', Flag True),
                (''is_checked_crop'', Flag False),
                (''denoise_steps'', Number 30),
                (''seed'', Number 42)]),
          DateNow] @ (es1 @ es2)"
    by (simp add: added_def emit_def flip: tw)
  from r n have n': "fst (normalizeOutput env x sm) = Inr buf" by simp
  from pb gb have pb': "get_result env (trace w @ [DateNow,
          ClientConnect SPACE_ID (HUGGINGFACE_API_KEY env), AxiosGet (JStr p)]) = Inr pb"
    and gb': "get_result env (trace w @ [DateNow, ClientConnect SPACE_ID (HUGGINGFACE_API_KEY env),
          AxiosGet (JStr p), DateNow, WriteFileSync path1 pb, AxiosGet (JStr g)]) = Inr gb"
    by (simp_all add: emit_def)
  from ad post pb' gb' tw res d nn n' show ?thesis
    apply -
    apply (rule exI [of _ c])
    apply (rule exI [of _ pb])
    apply (rule exI [of _ gb])
    apply (rule exI [of _ path1])
    apply (rule exI [of _ path2])
    apply (rule exI [of _ result])
    apply (rule exI [of _ x])
    apply (rule exI [of _ rest])
    apply (rule exI [of _ "es1 @ es2"])
    apply (rule exI [of _ sm])
    apply simp
    done
qed

lemma processing_time_second:
  assumes run: "performTryOn_tempfile env p g w = (Inr r, w')"
  shows "processingTime r =
           clock env (through_last_clock (trace w')) - clock env (trace w @ [DateNow]) \<and>
         (\<forall>m t. r = Failure m t \<longrightarrow>
            (\<exists>post. trace w' = through_last_clock (trace w') @ post \<and>
               (\<forall>e \<in> set post. \<exists>x. e = UnlinkSync x))) \<and>
         (\<forall>b t. r = Success b t \<longrightarrow>
            (\<exists>pre c a post.
               through_last_clock (trace w') = pre @ [Predict c ''/tryon'' a, DateNow] \<and>
               trace w' = through_last_clock (trace w') @ post \<and>
               (\<forall>e \<in> set post.
                  (\<exists>u. e = AxiosGet u) \<or> (\<exists>u. e = ReadFileSync u) \<or> (\<exists>x. e = UnlinkSync x))))"
proof (cases r)
  case (Failure m t)
  from performTryOn_tempfile_Failure [OF run [unfolded Failure]] obtain pp gp s2 rc where
    cl: "cleanup env pp gp (emit DateNow s2) = (rc, w')" and
    t: "t = clock env (trace s2 @ [DateNow]) - clock env (trace w @ [DateNow])" by blast
  from cleanup_effect [OF cl] obtain post where
    tw: "trace w' = trace s2 @ DateNow # post" and post: "\<forall>e \<in> set post. \<exists>x. e = UnlinkSync x"
    by (auto simp: emit_def)
  from post have "DateNow \<notin> set post" by auto
  from through_last_clock_append [OF this, of "trace s2"] tw have
    tl: "through_last_clock (trace w') = trace s2 @ [DateNow]" by simp
  with tw have "trace w' = through_last_clock (trace w') @ post" by simp
  with post have "\<exists>post. trace w' = through_last_clock (trace w') @ post \<and>
               (\<forall>e \<in> set post. \<exists>x. e = UnlinkSync x)" by blast
  with Failure t tl show ?thesis by simp
next
  case (Success b t)
  from performTryOn_tempfile_Success [OF run [unfolded Success]] obtain pp gp s2 rc where
    tb: "try_block_tempfile env p g (clock env (trace w @ [DateNow])) (emit DateNow w)
        = ((Inr (Success b t), pp, gp), s2)" and
    cl: "cleanup env pp gp s2 = (rc, w')" by blast
  from try_block_tempfile_Inr [OF tb] obtain c pb gb path1 path2 x buf sm where
    sm0: "trace sm = trace (emit DateNow w) @
       [ClientConnect SPACE_ID (HUGGINGFACE_API_KEY env),
        AxiosGet (JStr p), DateNow, WriteFileSync path1 pb,
        AxiosGet (JStr g), DateNow, WriteFileSync path2 gb,
        Predict c ''/tryon''
          (Named
             [(''dict'', ImageEditor (handle_file_path path1) [] None),
              (''garm_img'', File (handle_file_path path2)),
              (''garment_des'', Text ''A stylish garment''),
              (''is_checked'', Flag True),
              (''is_checked_crop'', Flag False),
              (''denoise_steps'', Number 30),
              (''seed'', Number 42)]),
        DateNow]" and
    n: "normalizeOutput env x sm = (Inr buf, s2)" and
    r: "Success b t = Success buf (clock env (trace sm) - clock env (trace w @ [DateNow]))"
    by blast
  define pre where "pre = trace (emit DateNow w) @
       [ClientConnect SPACE_ID (HUGGINGFACE_API_KEY env),
        AxiosGet (JStr p), DateNow, WriteFileSync path1 pb,
        AxiosGet (JStr g), DateNow, WriteFileSync path2 gb]"
  define a where "a = Named
             [(''dict'', ImageEditor (handle_file_path path1) [] None),
              (''garm_img'', File (handle_file_path path2)),
              (''garment_des'', Text ''A stylish garment''),
              (''is_checked'', Flag True),
              (''is_checked_crop'', Flag False),
              (''denoise_steps'', Number 30),
              (''seed'', Number 42)]"
  from sm0 have sm: "trace sm = pre @ [Predict c ''/tryon'' a, DateNow]"
    by (simp add: pre_def a_def)
  from quietD [OF quiet_normalizeOutput
      [of "\<lambda>e. (\<exists>u. e = AxiosGet u) \<or> (\<exists>u. e = ReadFileSync u) \<or> (\<exists>x. e = UnlinkSync x)"] n]
  obtain es1 where
    s2: "trace s2 = trace sm @ es1" and
    es1: "\<forall>e \<in> set es1. (\<exists>u. e = AxiosGet u) \<or> (\<exists>u. e = ReadFileSync u) \<or> (\<exists>x. e = UnlinkSync x)"
    by auto
  from cleanup_effect [OF cl] obtain es2 where
    tw: "trace w' = trace s2 @ es2" and es2: "\<forall>e \<in> set es2. \<exists>x. e = UnlinkSync x" by blast
  from es1 es2 have post:
    "\<forall>e \<in> set (es1 @ es2). (\<exists>u. e = AxiosGet u) \<or> (\<exists>u. e = ReadFileSync u) \<or> (\<exists>x. e = UnlinkSync x)"
    by auto
  then have "DateNow \<notin> set (es1 @ es2)" by auto
  from through_last_clock_append [OF this, of "pre @ [Predict c ''/tryon'' a]"] sm s2 tw have
    tl: "through_last_clock (trace w') = pre @ [Predict c ''/tryon'' a, DateNow]" by simp
  with sm s2 tw have split: "trace w' = through_last_clock (trace w') @ (es1 @ es2)" by simp
  from r sm tl have time:
    "t = clock env (through_last_clock (trace w')) - clock env (trace w @ [DateNow])" by simp
  from tl split post have
    "\<exists>pre c a post.
        through_last_clock (trace w') = pre @ [Predict c ''/tryon'' a, DateNow] \<and>
        trace w' = through_last_clock (trace w') @ post \<and>
        (\<forall>e \<in> set post.
           (\<exists>u. e = AxiosGet u) \<or> (\<exists>u. e = ReadFileSync u) \<or> (\<exists>x. e = UnlinkSync x))"
    by blast
  with Success time show ?thesis by simp
qed

subsection \<open>The sample runs\<close>

text \<open>
  Both listings evaluated in the sample environment.
\<close>

lemmas run_defs = performTryOn_unfold try_block_def getClient_unfold catch_block_unfold
  read_result_def fetchImageBlob_def normalizeOutput_def and_prop_def own_prop_def
  try_catch_def try_bind_def hasToken_def message_or_def SPACE_ID_def TypeError_def

lemmas run_tempfile_defs = performTryOn_tempfile_def attempt_tempfile_unfold try_block_tempfile_def
  downloadToTempFile_unfold cleanup_def unlink_if_exists_def existsSync_def Let_def
  read_result_def normalizeOutput_def and_prop_def own_prop_def
  try_catch_def try_bind_def message_or_def SPACE_ID_def TypeError_def
  path_join_def path_normalize_def show_int_def show_nat.simps

lemma ex_run:
  "performTryOn ex_env ''https://x/p.jpg'' ''https://x/g.jpg'' fresh_state =
     (Inr (Success [3, 4] 5),
      \<lparr>trace =
         [DateNow,
          ClientConnect ''yisol/IDM-VTON'' (Some ''hf_abc''),
          AxiosGet (JStr ''https://x/p.jpg''),
          AxiosGet (JStr ''https://x/g.jpg''),
          Predict (Client 1) ''/tryon''
            (Positional
               [ImageEditor (handle_file_blob (Blob [1] ''image/jpeg'')) [] None,
                File (handle_file_blob (Blob [2] ''image/jpeg'')),
                Text ''A stylish garment'', Flag True, Flag False, Number 30, Number 42]),
          DateNow,
          AxiosGet (JStr ''https://x/out.jpg'')],
       files = Map.empty,
       cachedClient = Some (Client 1)\<rparr>)"
  by (simp add: run_defs prim_defs ex_env_def fresh_state_def)

lemma ex_run_tempfile:
  "fst (performTryOn_tempfile ex_env ''https://x/p.jpg'' ''https://x/g.jpg'' fresh_world) =
     Inr (Success [3, 4] 9) \<and>
   trace (snd (performTryOn_tempfile ex_env ''https://x/p.jpg'' ''https://x/g.jpg'' fresh_world)) =
     [DateNow,
      ClientConnect ''yisol/IDM-VTON'' (Some ''hf_abc''),
      AxiosGet (JStr ''https://x/p.jpg''),
      DateNow,
      WriteFileSync ''/tmp/person_4.jpg'' [1],
      AxiosGet (JStr ''https://x/g.jpg''),
      DateNow,
      WriteFileSync ''/tmp/garment_7.jpg'' [2],
      Predict (Client 1) ''/tryon''
        (Named
           [(''dict'', ImageEditor (handle_file_path ''/tmp/person_4.jpg'') [] None),
            (''garm_img'', File (handle_file_path ''/tmp/garment_7.jpg'')),
            (''garment_des'', Text ''A stylish garment''),
            (''is_checked'', Flag True),
            (''is_checked_crop'', Flag False),
            (''denoise_steps'', Number 30),
            (''seed'', Number 42)]),
      DateNow,
      AxiosGet (JStr ''https://x/out.jpg''),
      UnlinkSync ''/tmp/person_4.jpg'',
      UnlinkSync ''/tmp/garment_7.jpg'']"
  by (simp add: run_tempfile_defs prim_defs ex_env_def fresh_world_def)

subsection \<open>The result normalizer\<close>

text \<open>
  C2. The normalizer tries four shapes of the first output in order, and the first that
  matches decides. An object whose \<^verbatim>\<open>url\<close> is truthy is fetched with one GET of that
  URL, whatever its \<^verbatim>\<open>path\<close> is; otherwise an object whose \<^verbatim>\<open>path\<close> is truthy is read
  from disk; a string that starts with \<^verbatim>\<open>http\<close> is fetched with one GET; a Blob gives
  its own bytes and calls nothing. In each case the normalizer returns exactly what that
  one fetch or read returned, bytes or failure. Every other value (an object with neither
  field truthy, any other string, \<^verbatim>\<open>undefined\<close>, \<^verbatim>\<open>null\<close>, a boolean, a number, an
  array) fails with the message \<^verbatim>\<open>Unexpected output format from Gradio client\<close> and
  calls nothing.
\<close>

theorem normalizer_shapes:
  fixes s :: "'a world_scheme"
  shows
  "(truthy (own_prop kvs ''url'') \<longrightarrow>
      normalizeOutput env (JObj kvs) s =
        (get_result env (trace s @ [AxiosGet (own_prop kvs ''url'')]),
         emit (AxiosGet (own_prop kvs ''url'')) s)) \<and>
   (\<not> truthy (own_prop kvs ''url'') \<and> truthy (own_prop kvs ''path'') \<longrightarrow>
      normalizeOutput env (JObj kvs) s =
        (readFile_result env (trace s @ [ReadFileSync (own_prop kvs ''path'')]),
         emit (ReadFileSync (own_prop kvs ''path'')) s)) \<and>
   (take 4 str = ''http'' \<longrightarrow>
      normalizeOutput env (JStr str) s =
        (get_result env (trace s @ [AxiosGet (JStr str)]), emit (AxiosGet (JStr str)) s)) \<and>
   normalizeOutput env (JBlob b) s = (Inr (arrayBuffer b), s) \<and>
   (\<not> truthy (own_prop kvs ''url'') \<and> \<not> truthy (own_prop kvs ''path'') \<longrightarrow>
      normalizeOutput env (JObj kvs) s =
        (Inl (Error ''Unexpected output format from Gradio client''), s)) \<and>
   (take 4 str \<noteq> ''http'' \<longrightarrow>
      normalizeOutput env (JStr str) s =
        (Inl (Error ''Unexpected output format from Gradio client''), s)) \<and>
   (v \<in> {JUndefined, JNull, JBool flag, JNum n, JArr xs} \<longrightarrow>
      normalizeOutput env v s =
        (Inl (Error ''Unexpected output format from Gradio client''), s))"
  by (auto simp: normalizeOutput_def and_prop_def axios_get_def readFileSync_def emit_def lift_def)

theorem normalizer_shapes_witness:
  "normalizeOutput ex_env
      (JObj [(''url'', JStr ''https://x/out.jpg''), (''path'', JStr ''/data/out.jpg'')]) fresh_world
     = (Inr [3, 4], emit (AxiosGet (JStr ''https://x/out.jpg'')) fresh_world) \<and>
   normalizeOutput ex_env
      (JObj [(''url'', JStr []), (''path'', JStr ''/data/out.jpg'')]) fresh_world
     = (Inr [5, 6, 7], emit (ReadFileSync (JStr ''/data/out.jpg'')) fresh_world) \<and>
   normalizeOutput ex_env (JStr ''https://x/out.jpg'') fresh_world
     = (Inr [3, 4], emit (AxiosGet (JStr ''https://x/out.jpg'')) fresh_world) \<and>
   normalizeOutput ex_env (JBlob (Blob [8, 9] ''image/png'')) fresh_world
     = (Inr [8, 9], fresh_world) \<and>
   normalizeOutput ex_env (JObj [(''name'', JStr ''out.jpg'')]) fresh_world
     = (Inl (Error ''Unexpected output format from Gradio client''), fresh_world) \<and>
   normalizeOutput ex_env (JStr ''ftp://x/out.jpg'') fresh_world
     = (Inl (Error ''Unexpected output format from Gradio client''), fresh_world) \<and>
   normalizeOutput ex_env (JNum 42) fresh_world
     = (Inl (Error ''Unexpected output format from Gradio client''), fresh_world)"
  using normalizer_shapes
          [of "[(''url'', JStr ''https://x/out.jpg''), (''path'', JStr ''/data/out.jpg'')]"
              ex_env fresh_world "''https://x/out.jpg''" "Blob [8, 9] ''image/png''"
              "JNum 42" False 42 "[]"]
        normalizer_shapes
          [of "[(''url'', JStr []), (''path'', JStr ''/data/out.jpg'')]"
              ex_env fresh_world "''ftp://x/out.jpg''" "Blob [8, 9] ''image/png''"
              "JNum 42" False 42 "[]"]
        normalizer_shapes
          [of "[(''name'', JStr ''out.jpg'')]"
              ex_env fresh_world "''ftp://x/out.jpg''" "Blob [8, 9] ''image/png''"
              "JNum 42" False 42 "[]"]
  by (simp add: own_prop_def ex_env_def fresh_world_def)

text \<open>
  Inside the operation the normalizer is what decides an answer with no \<^verbatim>\<open>null\<close> in
  it, as in the specification's scenario of a first output 42. An answer that holds a
  \<^verbatim>\<open>null\<close>, as first output or after it, does not reach the normalizer: the console
  line before it (line 117) takes the keys of every element and raises, and the failure
  returned carries that exception's message.
\<close>

lemma unrecognized_output_run:
  "fst (performTryOn
          (ex_env\<lparr>predict_result := \<lambda>h. Inr (JObj [(''data'', JArr [JNum 42, JObj []])])\<rparr>)
          ''https://x/p.jpg'' ''https://x/g.jpg'' fresh_state) =
     Inr (Failure (JStr ''Unexpected output format from Gradio client'') 6)"
  by (simp add: run_defs prim_defs ex_env_def fresh_state_def)

lemma null_output_raises_before_normalizer:
  "get_prop result ''data'' = Inr (JArr ds) \<Longrightarrow> JNull \<in> set ds \<Longrightarrow>
     read_result env startTime result s =
       (Inl (TypeError ''Cannot convert undefined or null to object''), emit DateNow s)"
  by (simp add: read_result_def Date_now_def try_bind_def lift_def Let_def)

lemma null_output_run:
  "fst (performTryOn
          (ex_env\<lparr>predict_result := \<lambda>h. Inr (JObj [(''data'', JArr [JNull, JObj []])])\<rparr>)
          ''https://x/p.jpg'' ''https://x/g.jpg'' fresh_state) =
     Inr (Failure (JStr ''Cannot convert undefined or null to object'') 6)"
  by (simp add: run_defs prim_defs ex_env_def fresh_state_def)

subsection \<open>Which exceptions leave the operation\<close>




subsection \<open>The missing credential\<close>

text \<open>
  C3, as the code has it. In the first listing, when \<^verbatim>\<open>HUGGINGFACE_API_KEY\<close> is absent
  and no handle is cached, \<open>performTryOn\<close> returns the failure outcome with the message
  \<^verbatim>\<open>HUGGINGFACE_API_KEY is required for IDM-VTON\<close>, and all it has called by then is
  the clock, twice: no connection, no provisioning, no fetch. The second listing has no
  such check: whatever the variable holds, its first call after reading the clock is the
  connection to the space, with the variable's value as the token.
\<close>

theorem missing_credential:
  "(HUGGINGFACE_API_KEY env = None \<and> cachedClient s = None \<longrightarrow>
      performTryOn env p g s =
        (Inr (Failure (JStr ''HUGGINGFACE_API_KEY is required for IDM-VTON'')
                (clock env (trace s @ [DateNow, DateNow]) - clock env (trace s @ [DateNow]))),
         s\<lparr>trace := trace s @ [DateNow, DateNow], cachedClient := None\<rparr>)) \<and>
   (\<exists>es. added w (snd (performTryOn_tempfile env p g w)) =
           DateNow # ClientConnect SPACE_ID (HUGGINGFACE_API_KEY env) # es)"
proof
  show "HUGGINGFACE_API_KEY env = None \<and> cachedClient s = None \<longrightarrow>
      performTryOn env p g s =
        (Inr (Failure (JStr ''HUGGINGFACE_API_KEY is required for IDM-VTON'')
                (clock env (trace s @ [DateNow, DateNow]) - clock env (trace s @ [DateNow]))),
         s\<lparr>trace := trace s @ [DateNow, DateNow], cachedClient := None\<rparr>)"
    by (simp add: performTryOn_unfold try_block_def getClient_def hasToken_def catch_block_unfold
          try_catch_def try_bind_def emit_def message_or_def)
next
  show "\<exists>es. added w (snd (performTryOn_tempfile env p g w)) =
           DateNow # ClientConnect SPACE_ID (HUGGINGFACE_API_KEY env) # es"
    by (rule tempfile_connects_first)
qed

theorem missing_credential_witness:
  "performTryOn (ex_env\<lparr>HUGGINGFACE_API_KEY := None\<rparr>)
      ''https://x/p.jpg'' ''https://x/g.jpg'' fresh_state =
     (Inr (Failure (JStr ''HUGGINGFACE_API_KEY is required for IDM-VTON'') 1),
      fresh_state\<lparr>trace := [DateNow, DateNow], cachedClient := None\<rparr>)"
  using missing_credential [of "ex_env\<lparr>HUGGINGFACE_API_KEY := None\<rparr>" fresh_state
          "''https://x/p.jpg''" "''https://x/g.jpg''" fresh_world]
  by (simp add: ex_env_def fresh_state_def)

text \<open>
  The claim as stated fails on the second listing: without the credential it connects
  with no token and, where the space accepts that, returns a success.
\<close>

theorem missing_credential_counterexample:
  "fst (performTryOn_tempfile (ex_env\<lparr>HUGGINGFACE_API_KEY := None\<rparr>)
          ''https://x/p.jpg'' ''https://x/g.jpg'' fresh_world) = Inr (Success [3, 4] 9) \<and>
   take 2 (trace (snd (performTryOn_tempfile (ex_env\<lparr>HUGGINGFACE_API_KEY := None\<rparr>)
          ''https://x/p.jpg'' ''https://x/g.jpg'' fresh_world))) =
     [DateNow, ClientConnect ''yisol/IDM-VTON'' None]"
  by (simp add: run_tempfile_defs prim_defs ex_env_def fresh_world_def)

subsection \<open>Invalidation of the handle\<close>

text \<open>
  C4. Whenever \<open>performTryOn\<close> returns a failure outcome, the cached handle is empty
  afterwards. So the next acquisition does not reuse a handle: with the credential present
  its first call is a fresh connection to the space, and without it it fails on the missing
  credential. The second listing keeps no handle at all, and every invocation of it opens
  with a connection.
\<close>

theorem failure_invalidates_handle:
  "(performTryOn env p g s = (Inr (Failure m t), s') \<longrightarrow>
      cachedClient s' = None \<and>
      (hasToken env' \<longrightarrow>
         (\<exists>es. added s' (snd (getClient env' s')) =
                 ClientConnect SPACE_ID (HUGGINGFACE_API_KEY env') # es)) \<and>
      (\<not> hasToken env' \<longrightarrow>
         getClient env' s' =
           (Inl (Error ''HUGGINGFACE_API_KEY is required for IDM-VTON''), s'))) \<and>
   (\<exists>es. added w (snd (performTryOn_tempfile env' p' g' w)) =
           DateNow # ClientConnect SPACE_ID (HUGGINGFACE_API_KEY env') # es)"
proof (intro conjI impI)
  assume run: "performTryOn env p g s = (Inr (Failure m t), s')"
  from performTryOn_Failure [OF run] show "cachedClient s' = None" by auto
next
  assume run: "performTryOn env p g s = (Inr (Failure m t), s')" and tok: "hasToken env'"
  from performTryOn_Failure [OF run] have none: "cachedClient s' = None" by auto
  obtain r1 sc where gc: "getClient env' s' = (r1, sc)" by (cases "getClient env' s'")
  from getClient_effect [OF gc] none tok obtain es es' where
    "sc = s'\<lparr>trace := trace s' @ es, cachedClient := cachedClient sc\<rparr>"
    "es = ClientConnect SPACE_ID (HUGGINGFACE_API_KEY env') # es'" by blast
  from this(1) have "trace sc = trace (s'\<lparr>trace := trace s' @ es, cachedClient := cachedClient sc\<rparr>)"
    by (rule arg_cong)
  with \<open>es = ClientConnect SPACE_ID (HUGGINGFACE_API_KEY env') # es'\<close>
  have "trace sc = trace s' @ ClientConnect SPACE_ID (HUGGINGFACE_API_KEY env') # es'"
    by simp
  with gc show "\<exists>es. added s' (snd (getClient env' s')) =
                 ClientConnect SPACE_ID (HUGGINGFACE_API_KEY env') # es"
    by (simp add: added_def)
next
  assume run: "performTryOn env p g s = (Inr (Failure m t), s')" and tok: "\<not> hasToken env'"
  from performTryOn_Failure [OF run] have "cachedClient s' = None" by auto
  with tok show "getClient env' s' =
           (Inl (Error ''HUGGINGFACE_API_KEY is required for IDM-VTON''), s')"
    by (simp add: getClient_def)
next
  show "\<exists>es. added w (snd (performTryOn_tempfile env' p' g' w)) =
           DateNow # ClientConnect SPACE_ID (HUGGINGFACE_API_KEY env') # es"
    by (rule tempfile_connects_first)
qed

text \<open>
  The remote call rejects; the handle that the connection had cached is gone, and the
  next acquisition connects again.
\<close>

theorem failure_invalidates_handle_witness:
  "performTryOn (ex_env\<lparr>predict_result := \<lambda>h. Inl (Error ''GPU quota exceeded'')\<rparr>)
      ''https://x/p.jpg'' ''https://x/g.jpg'' fresh_state
     = (Inr (Failure (JStr ''GPU quota exceeded'') 5), failed_state) \<and>
   cachedClient failed_state = None \<and>
   (\<exists>es. added failed_state (snd (getClient ex_env failed_state)) =
           ClientConnect SPACE_ID (HUGGINGFACE_API_KEY ex_env) # es)"
proof -
  let ?env = "ex_env\<lparr>predict_result := \<lambda>h. Inl (Error ''GPU quota exceeded'')\<rparr>"
  have run: "performTryOn ?env ''https://x/p.jpg'' ''https://x/g.jpg'' fresh_state
     = (Inr (Failure (JStr ''GPU quota exceeded'') 5), failed_state)"
    by (simp add: run_defs prim_defs ex_env_def fresh_state_def failed_state_def)
  have tok: "hasToken ex_env" by (simp add: hasToken_def ex_env_def)
  from failure_invalidates_handle [of ?env "''https://x/p.jpg''" "''https://x/g.jpg''" fresh_state
      "JStr ''GPU quota exceeded''" 5 failed_state ex_env fresh_world] run tok
  show ?thesis by simp
qed

subsection \<open>Reuse of the handle\<close>

text \<open>
  C5. When a handle is cached, the acquisition returns it at once: the world is left as it
  was, so nothing was validated and neither the connection nor the provisioning was called.
  In particular, after a successful invocation a handle is cached, and a second invocation,
  with any URLs and any behaviour of the collaborators, calls neither of the two.
\<close>

theorem cached_handle_reused:
  "(cachedClient s = Some c \<longrightarrow> getClient env s = (Inr c, s)) \<and>
   (performTryOn env p g s = (Inr (Success b t), s1) \<longrightarrow>
      (\<exists>c'. cachedClient s1 = Some c') \<and>
      (\<forall>e \<in> set (added s1 (snd (performTryOn env' p' g' s1))). \<not> is_connection e))"
proof (intro conjI impI)
  assume "cachedClient s = Some c"
  then show "getClient env s = (Inr c, s)" by (rule getClient_cached)
next
  assume "performTryOn env p g s = (Inr (Success b t), s1)"
  then show "\<exists>c'. cachedClient s1 = Some c'" by (rule success_keeps_cache)
next
  assume "performTryOn env p g s = (Inr (Success b t), s1)"
  then obtain c' where "cachedClient s1 = Some c'" using success_keeps_cache by blast
  then show "\<forall>e \<in> set (added s1 (snd (performTryOn env' p' g' s1))). \<not> is_connection e"
    using cached_no_connection [of s1 c' env' p' g'] by (simp add: prod_eq_iff)
qed

theorem cached_handle_reused_witness:
  "getClient ex_env (fresh_state\<lparr>cachedClient := Some (Client 7)\<rparr>) =
     (Inr (Client 7), fresh_state\<lparr>cachedClient := Some (Client 7)\<rparr>) \<and>
   performTryOn ex_env ''https://x/p.jpg'' ''https://x/g.jpg'' fresh_state =
     (Inr (Success [3, 4] 5), served_state) \<and>
   (\<exists>c'. cachedClient served_state = Some c') \<and>
   filter is_connection
     (added served_state
        (snd (performTryOn ex_env ''https://x/p.jpg'' ''https://x/g.jpg'' served_state))) = []"
proof -
  have run: "performTryOn ex_env ''https://x/p.jpg'' ''https://x/g.jpg'' fresh_state =
     (Inr (Success [3, 4] 5), served_state)"
    by (simp add: ex_run served_state_def)
  have c: "cachedClient (fresh_state\<lparr>cachedClient := Some (Client 7)\<rparr>) = Some (Client 7)"
    by simp
  from cached_handle_reused [of "fresh_state\<lparr>cachedClient := Some (Client 7)\<rparr>" "Client 7" ex_env]
       cached_handle_reused [of fresh_state "Client 7" ex_env "''https://x/p.jpg''"
          "''https://x/g.jpg''" "[3, 4]" 5 served_state ex_env "''https://x/p.jpg''"
          "''https://x/g.jpg''"] run c
  show ?thesis by (simp add: filter_empty_conv)
qed

subsection \<open>Acquiring a handle\<close>

text \<open>
  C6. With no handle cached and the credential present, the acquisition first connects to
  the fixed space \<^verbatim>\<open>yisol/IDM-VTON\<close> with the credential. If that succeeds, nothing else is
  called. Only if it fails is a private copy provisioned (timeout 300, private). In both
  successful cases the handle is in the cache when it is returned; if both attempts fail,
  the provisioning's failure is what the acquisition raises, and the cache stays empty.
  (The one failure of the connection that is not followed by the provisioning is a
  rejection with \<^verbatim>\<open>null\<close> or \<^verbatim>\<open>undefined\<close>: the handler's reading of
  \<^verbatim>\<open>connectError.message\<close> raises, and that exception is what the acquisition raises,
  with the cache empty.)
\<close>

theorem getClient_acquire:
  "cachedClient s = None \<and> hasToken env \<longrightarrow>
     (connect_result env (trace s @ [ClientConnect SPACE_ID (HUGGINGFACE_API_KEY env)]) = Inr c \<longrightarrow>
        getClient env s =
          (Inr c, s\<lparr>trace := trace s @ [ClientConnect SPACE_ID (HUGGINGFACE_API_KEY env)],
                    cachedClient := Some c\<rparr>)) \<and>
     (connect_result env (trace s @ [ClientConnect SPACE_ID (HUGGINGFACE_API_KEY env)]) = Inl e \<and>
      \<not> nullish e \<and>
      duplicate_result env (trace s @ [ClientConnect SPACE_ID (HUGGINGFACE_API_KEY env),
         ClientDuplicate SPACE_ID (HUGGINGFACE_API_KEY env) 300 True]) = Inr c \<longrightarrow>
        getClient env s =
          (Inr c, s\<lparr>trace := trace s @ [ClientConnect SPACE_ID (HUGGINGFACE_API_KEY env),
                       ClientDuplicate SPACE_ID (HUGGINGFACE_API_KEY env) 300 True],
                    cachedClient := Some c\<rparr>)) \<and>
     (connect_result env (trace s @ [ClientConnect SPACE_ID (HUGGINGFACE_API_KEY env)]) = Inl e \<and>
      \<not> nullish e \<and>
      duplicate_result env (trace s @ [ClientConnect SPACE_ID (HUGGINGFACE_API_KEY env),
         ClientDuplicate SPACE_ID (HUGGINGFACE_API_KEY env) 300 True]) = Inl e' \<longrightarrow>
        getClient env s =
          (Inl e', s\<lparr>trace := trace s @ [ClientConnect SPACE_ID (HUGGINGFACE_API_KEY env),
                       ClientDuplicate SPACE_ID (HUGGINGFACE_API_KEY env) 300 True]\<rparr>)) \<and>
     (connect_result env (trace s @ [ClientConnect SPACE_ID (HUGGINGFACE_API_KEY env)]) = Inl e \<and>
      message e = Inl e'' \<longrightarrow>
        getClient env s =
          (Inl e'', s\<lparr>trace := trace s @ [ClientConnect SPACE_ID (HUGGINGFACE_API_KEY env)]\<rparr>))"
  using message_Inr [of e] by (auto simp: getClient_unfold)

theorem getClient_acquire_witness:
  "getClient ex_env fresh_state =
     (Inr (Client 1),
      fresh_state\<lparr>trace := [ClientConnect ''yisol/IDM-VTON'' (Some ''hf_abc'')],
                  cachedClient := Some (Client 1)\<rparr>) \<and>
   getClient (ex_env\<lparr>connect_result := \<lambda>h. Inl (Error ''Space is paused'')\<rparr>) fresh_state =
     (Inr (Client 2),
      fresh_state\<lparr>trace := [ClientConnect ''yisol/IDM-VTON'' (Some ''hf_abc''),
                            ClientDuplicate ''yisol/IDM-VTON'' (Some ''hf_abc'') 300 True],
                  cachedClient := Some (Client 2)\<rparr>) \<and>
   getClient (ex_env\<lparr>connect_result := \<lambda>h. Inl (Error ''Space is paused''),
                     duplicate_result := \<lambda>h. Inl (Error ''Quota exceeded'')\<rparr>) fresh_state =
     (Inl (Error ''Quota exceeded''),
      fresh_state\<lparr>trace := [ClientConnect ''yisol/IDM-VTON'' (Some ''hf_abc''),
                            ClientDuplicate ''yisol/IDM-VTON'' (Some ''hf_abc'') 300 True]\<rparr>) \<and>
   getClient (ex_env\<lparr>connect_result := \<lambda>h. Inl (Thrown JUndefined)\<rparr>) fresh_state =
     (Inl (TypeError ''Cannot read properties of undefined (reading 'message')''),
      fresh_state\<lparr>trace := [ClientConnect ''yisol/IDM-VTON'' (Some ''hf_abc'')]\<rparr>)"
  using getClient_acquire [of fresh_state ex_env "Client 1"]
        getClient_acquire [of fresh_state
          "ex_env\<lparr>connect_result := \<lambda>h. Inl (Error ''Space is paused'')\<rparr>"
          "Client 2" "Error ''Space is paused''"]
        getClient_acquire [of fresh_state
          "ex_env\<lparr>connect_result := \<lambda>h. Inl (Error ''Space is paused''),
                   duplicate_result := \<lambda>h. Inl (Error ''Quota exceeded'')\<rparr>"
          "Client 2" "Error ''Space is paused''" "Error ''Quota exceeded''"]
        getClient_acquire [of fresh_state
          "ex_env\<lparr>connect_result := \<lambda>h. Inl (Thrown JUndefined)\<rparr>"
          "Client 2" "Thrown JUndefined" "Error ''Quota exceeded''"
          "TypeError ''Cannot read properties of undefined (reading 'message')''"]
  by (simp add: ex_env_def fresh_state_def hasToken_def SPACE_ID_def nullish_def)

subsection \<open>The remote call\<close>

text \<open>
  C7. In every successful invocation the events of the call are known up to the choices
  of the collaborators. In the first listing: the clock, the acquisition's connection
  events if any, the download of the person image, the download of the garment image, one
  call of \<^verbatim>\<open>/tryon\<close>, the clock, and then what the normalizer does, which is no remote
  call. The arguments of \<^verbatim>\<open>/tryon\<close> are the positional list of the person image as
  the background of an editor value with no layers and no composite, the garment image,
  \<^verbatim>\<open>A stylish garment\<close>, true, false, 30 and 42, where the two images are the bytes
  that the two downloads returned. In the second listing the same seven values are passed
  by name, and the images are the two temporary files the downloads were written to. In
  both, the answer's \<^verbatim>\<open>data\<close> is a list with a first element, and the image returned
  is what the normalizer makes of that first element: the rest of the list has no part in
  it. (No element of the list is \<^verbatim>\<open>null\<close> in a successful invocation, since line 117
  takes the keys of each element for the console.)
\<close>

theorem tryon_remote_call:
  "(performTryOn env p g s = (Inr (Success buf t), s') \<longrightarrow>
     (\<exists>conn c pb gb result x rest post sm.
       added s s' =
         DateNow # conn @
         [AxiosGet (JStr p), AxiosGet (JStr g),
          Predict c ''/tryon''
            (Positional
               [ImageEditor (handle_file_blob (Blob pb ''image/jpeg'')) [] None,
                File (handle_file_blob (Blob gb ''image/jpeg'')),
                Text ''A stylish garment'', Flag True, Flag False, Number 30, Number 42]),
          DateNow] @ post \<and>
       (\<forall>e \<in> set conn. is_connection e) \<and>
       (\<forall>e \<in> set post. \<not> is_predict e) \<and>
       get_result env (trace s @ DateNow # conn @ [AxiosGet (JStr p)]) = Inr pb \<and>
       get_result env (trace s @ DateNow # conn @ [AxiosGet (JStr p), AxiosGet (JStr g)]) = Inr gb \<and>
       trace sm @ post = trace s' \<and>
       predict_result env (butlast (trace sm)) = Inr result \<and>
       get_prop result ''data'' = Inr (JArr (x # rest)) \<and>
       JNull \<notin> set (x # rest) \<and>
       normalizeOutput env x sm = (Inr buf, s'))) \<and>
   (performTryOn_tempfile env p g w = (Inr (Success buf' t'), w') \<longrightarrow>
     (\<exists>c pb gb pp gp result x rest post (wm :: world).
       added w w' =
         [DateNow,
          ClientConnect SPACE_ID (HUGGINGFACE_API_KEY env),
          AxiosGet (JStr p), DateNow, WriteFileSync pp pb,
          AxiosGet (JStr g), DateNow, WriteFileSync gp gb,
          Predict c ''/tryon''
            (Named
               [(''dict'', ImageEditor (handle_file_path pp) [] None),
                (''garm_img'', File (handle_file_path gp)),
                (''garment_des'', Text ''A stylish garment''),
                (''is_checked'', Flag True),
                (''is_checked_crop'', Flag False),
                (''denoise_steps'', Number 30),
                (''seed'', Number 42)]),
          DateNow] @ post \<and>
       (\<forall>e \<in> set post. \<not> is_predict e) \<and>
       get_result env (trace w @ [DateNow, ClientConnect SPACE_ID (HUGGINGFACE_API_KEY env),
          AxiosGet (JStr p)]) = Inr pb \<and>
       get_result env (trace w @ [DateNow, ClientConnect SPACE_ID (HUGGINGFACE_API_KEY env),
          AxiosGet (JStr p), DateNow, WriteFileSync pp pb, AxiosGet (JStr g)]) = Inr gb \<and>
       trace wm @ post = trace w' \<and>
       predict_result env (butlast (trace wm)) = Inr result \<and>
       get_prop result ''data'' = Inr (JArr (x # rest)) \<and>
       JNull \<notin> set (x # rest) \<and>
       fst (normalizeOutput env x wm) = Inr buf'))"
  (is "(?runA \<longrightarrow> ?A) \<and> (?runB \<longrightarrow> ?B)")
proof (intro conjI impI)
  assume ?runA
  then show ?A by (rule tryon_remote_call_first)
next
  assume ?runB
  then show ?B by (rule tryon_remote_call_second)
qed

text \<open>
  In the sample environment both listings succeed, and the one remote call of each carries
  the fixed arguments.
\<close>

theorem tryon_remote_call_witness:
  "(\<exists>c pb gb.
      Predict c ''/tryon''
        (Positional
           [ImageEditor (handle_file_blob (Blob pb ''image/jpeg'')) [] None,
            File (handle_file_blob (Blob gb ''image/jpeg'')),
            Text ''A stylish garment'', Flag True, Flag False, Number 30, Number 42])
      \<in> set (added fresh_state served_state)) \<and>
   (\<exists>c pp gp.
      Predict c ''/tryon''
        (Named
           [(''dict'', ImageEditor (handle_file_path pp) [] None),
            (''garm_img'', File (handle_file_path gp)),
            (''garment_des'', Text ''A stylish garment''),
            (''is_checked'', Flag True),
            (''is_checked_crop'', Flag False),
            (''denoise_steps'', Number 30),
            (''seed'', Number 42)])
      \<in> set (added fresh_world
           (snd (performTryOn_tempfile ex_env ''https://x/p.jpg'' ''https://x/g.jpg'' fresh_world))))"
proof -
  let ?p = "''https://x/p.jpg''" and ?g = "''https://x/g.jpg''"
  have runA: "performTryOn ex_env ?p ?g fresh_state = (Inr (Success [3, 4] 5), served_state)"
    by (simp add: ex_run served_state_def)
  have runB: "performTryOn_tempfile ex_env ?p ?g fresh_world =
      (Inr (Success [3, 4] 9), snd (performTryOn_tempfile ex_env ?p ?g fresh_world))"
    using ex_run_tempfile by (simp add: prod_eq_iff)
  note inst = tryon_remote_call [of ex_env ?p ?g fresh_state "[3, 4]" 5 served_state fresh_world
      "[3, 4]" 9 "snd (performTryOn_tempfile ex_env ?p ?g fresh_world)"]
  from inst runA obtain conn c pb gb post where
    "added fresh_state served_state =
         DateNow # conn @
         [AxiosGet (JStr ?p), AxiosGet (JStr ?g),
          Predict c ''/tryon''
            (Positional
               [ImageEditor (handle_file_blob (Blob pb ''image/jpeg'')) [] None,
                File (handle_file_blob (Blob gb ''image/jpeg'')),
                Text ''A stylish garment'', Flag True, Flag False, Number 30, Number 42]),
          DateNow] @ post"
    by blast
  then have A: "\<exists>c pb gb.
      Predict c ''/tryon''
        (Positional
           [ImageEditor (handle_file_blob (Blob pb ''image/jpeg'')) [] None,
            File (handle_file_blob (Blob gb ''image/jpeg'')),
            Text ''A stylish garment'', Flag True, Flag False, Number 30, Number 42])
      \<in> set (added fresh_state served_state)"
    by auto
  from inst runB obtain c pb gb pp gp post where
    "added fresh_world (snd (performTryOn_tempfile ex_env ?p ?g fresh_world)) =
         [DateNow,
          ClientConnect SPACE_ID (HUGGINGFACE_API_KEY ex_env),
          AxiosGet (JStr ?p), DateNow, WriteFileSync pp pb,
          AxiosGet (JStr ?g), DateNow, WriteFileSync gp gb,
          Predict c ''/tryon''
            (Named
               [(''dict'', ImageEditor (handle_file_path pp) [] None),
                (''garm_img'', File (handle_file_path gp)),
                (''garment_des'', Text ''A stylish garment''),
                (''is_checked'', Flag True),
                (''is_checked_crop'', Flag False),
                (''denoise_steps'', Number 30),
                (''seed'', Number 42)]),
          DateNow] @ post"
    by blast
  then have B: "\<exists>c pp gp.
      Predict c ''/tryon''
        (Named
           [(''dict'', ImageEditor (handle_file_path pp) [] None),
            (''garm_img'', File (handle_file_path gp)),
            (''garment_des'', Text ''A stylish garment''),
            (''is_checked'', Flag True),
            (''is_checked_crop'', Flag False),
            (''denoise_steps'', Number 30),
            (''seed'', Number 42)])
      \<in> set (added fresh_world (snd (performTryOn_tempfile ex_env ?p ?g fresh_world)))"
    by auto
  from A B show ?thesis by (rule conjI)
qed

subsection \<open>Temporary files\<close>

text \<open>
  C8, as the code has it. The first listing keeps the images in memory: it writes no file
  and leaves the files as they were. The second listing writes each downloaded image to a
  temporary file, and its \<^verbatim>\<open>finally\<close> block calls nothing but the deletion, and that
  only on a path whose write was completed earlier in the same invocation: a path is
  assigned when its download has returned (lines 240 and 241), so the file that a write
  has left behind when it failed is not deleted. When no write fails after it has created
  its file and no deletion fails, the files written are gone on every way out: every file
  that exists when the operation ends existed before the call, with the same content. A
  deletion that throws is caught and only logged: the operation then ends as the
  \<^verbatim>\<open>try\<close> or its handler had fixed, with the same value or the same exception, as
  long as what the deletion threw is not \<^verbatim>\<open>null\<close> or \<^verbatim>\<open>undefined\<close>, whose
  \<^verbatim>\<open>message\<close> the logging could not read.
\<close>

theorem temp_files_removed:
  "files (snd (performTryOn env p g s)) = files s \<and>
   (\<forall>x d. WriteFileSync x d \<notin> set (added s (snd (performTryOn env p g s)))) \<and>
   ((\<forall>h. unlink_error env h = None) \<and> (\<forall>h e n. writeFile_outcome env h \<noteq> WriteFailed e n) \<longrightarrow>
      files (snd (performTryOn_tempfile env p g w)) \<subseteq>\<^sub>m files w) \<and>
   ((\<forall>h e. unlink_error env h = Some e \<longrightarrow> \<not> nullish e) \<longrightarrow>
      fst (performTryOn_tempfile env p g w) = fst (fst (attempt_tempfile env p g w))) \<and>
   (\<exists>es. trace (snd (performTryOn_tempfile env p g w)) =
            trace (snd (attempt_tempfile env p g w)) @ es \<and>
          (\<forall>e \<in> set es. \<exists>x. e = UnlinkSync x)) \<and>
   (\<forall>x. UnlinkSync x \<in> set (added w (snd (performTryOn_tempfile env p g w))) \<longrightarrow>
      (\<exists>h d rest.
         added w (snd (performTryOn_tempfile env p g w)) = h @ WriteFileSync x d # rest \<and>
         writeFile_outcome env (trace w @ h @ [WriteFileSync x d]) = Written))"
  (is "?A1 \<and> ?A2 \<and> ?B1 \<and> ?B2 \<and> ?B3 \<and> ?B4")
proof -
  have A1: ?A1
    by (rule performTryOn_files [of env p g s "fst (performTryOn env p g s)"]) simp
  have A2: ?A2
  proof -
    obtain r s' where run: "performTryOn env p g s = (r, s')" by (cases "performTryOn env p g s")
    from performTryOn_effect [OF run, of "\<lambda>e. \<forall>x d. e \<noteq> WriteFileSync x d"] obtain r1 sc es where
      gc: "getClient env (emit DateNow s) = (r1, sc)" and t: "trace s' = trace sc @ es"
      and es: "\<forall>e \<in> set es. \<forall>x d. e \<noteq> WriteFileSync x d" by auto
    from getClient_effect [OF gc] obtain es1 cc where
      sc: "sc = (emit DateNow s)\<lparr>trace := trace (emit DateNow s) @ es1, cachedClient := cc\<rparr>"
      and es1: "\<forall>e \<in> set es1. is_connection e" by blast
    from sc t have "added s s' = DateNow # es1 @ es" by (simp add: added_def emit_def)
    moreover from es1 have "\<forall>e \<in> set es1. \<forall>x d. e \<noteq> WriteFileSync x d" by auto
    ultimately show ?thesis using es run by auto
  qed
  obtain outcome pp gp s3 where at: "attempt_tempfile env p g w = ((outcome, pp, gp), s3)"
    by (metis surj_pair)
  obtain rc s4 where cl: "cleanup env pp gp s3 = (rc, s4)" by (cases "cleanup env pp gp s3")
  from performTryOn_tempfile_snd [OF at] cl have
    snd: "snd (performTryOn_tempfile env p g w) = s4" by simp
  have B1: ?B1
  proof
    assume "(\<forall>h. unlink_error env h = None) \<and> (\<forall>h e n. writeFile_outcome env h \<noteq> WriteFailed e n)"
    then have ok: "\<forall>h. unlink_error env h = None"
      and wr: "\<forall>h e n. writeFile_outcome env h \<noteq> WriteFailed e n" by simp_all
    from attempt_tempfile_effect [OF at] wr have
      keep: "\<forall>x. Some x \<noteq> pp \<and> Some x \<noteq> gp \<longrightarrow> files s3 x = files w x"
      and ne: "pp \<noteq> Some []" "gp \<noteq> Some []"
      by simp_all
    from cleanup_effect [OF cl] ok ne have
      "\<forall>x. files s4 x = (if Some x = pp \<or> Some x = gp then None else files s3 x)" by simp
    with keep have "files s4 \<subseteq>\<^sub>m files w"
      by (auto simp: map_le_def domIff)
    with snd show "files (snd (performTryOn_tempfile env p g w)) \<subseteq>\<^sub>m files w" by simp
  qed
  have B2: ?B2
  proof
    assume ok: "\<forall>h e. unlink_error env h = Some e \<longrightarrow> \<not> nullish e"
    from cleanup_returns [OF ok] obtain s4' where "cleanup env pp gp s3 = (Inr (), s4')" by blast
    from performTryOn_tempfile_fst [OF at this] at
    show "fst (performTryOn_tempfile env p g w) = fst (fst (attempt_tempfile env p g w))" by simp
  qed
  from cleanup_events [OF cl] obtain es where
    t4: "trace s4 = trace s3 @ es" and
    es: "\<forall>e \<in> set es. \<exists>x. e = UnlinkSync x \<and> (pp = Some x \<or> gp = Some x)" by blast
  have B3: ?B3
  proof -
    from es have "\<forall>e \<in> set es. \<exists>x. e = UnlinkSync x" by blast
    with t4 snd at show ?thesis by auto
  qed
  have B4: ?B4
  proof (intro allI impI)
    fix x
    assume x: "UnlinkSync x \<in> set (added w (snd (performTryOn_tempfile env p g w)))"
    from attempt_tempfile_written [OF at] obtain pre where
      t3: "trace s3 = trace w @ pre" and pre: "\<forall>e \<in> set pre. \<forall>x. e \<noteq> UnlinkSync x" and
      wr: "\<forall>x. pp = Some x \<or> gp = Some x \<longrightarrow>
            (\<exists>h d rest. trace s3 = trace w @ h @ WriteFileSync x d # rest \<and>
               writeFile_outcome env (trace w @ h @ [WriteFileSync x d]) = Written)"
      by blast
    from t3 t4 snd have ad: "added w (snd (performTryOn_tempfile env p g w)) = pre @ es"
      by (simp add: added_def)
    with x pre have "UnlinkSync x \<in> set es" by auto
    with es have "pp = Some x \<or> gp = Some x" by auto
    with wr obtain h d rest where
      h: "trace s3 = trace w @ h @ WriteFileSync x d # rest" and
      w: "writeFile_outcome env (trace w @ h @ [WriteFileSync x d]) = Written" by blast
    from h t3 have "pre = h @ WriteFileSync x d # rest" by simp
    with ad have "added w (snd (performTryOn_tempfile env p g w)) =
        h @ WriteFileSync x d # (rest @ es)" by simp
    with w show "\<exists>h d rest.
         added w (snd (performTryOn_tempfile env p g w)) = h @ WriteFileSync x d # rest \<and>
         writeFile_outcome env (trace w @ h @ [WriteFileSync x d]) = Written"
      by blast
  qed
  from A1 A2 B1 B2 B3 B4 show ?thesis by blast
qed

text \<open>
  In the sample environment the second listing writes its two files, deletes them, and
  leaves none behind.
\<close>

theorem temp_files_removed_witness:
  "files (snd (performTryOn ex_env ''https://x/p.jpg'' ''https://x/g.jpg'' fresh_state)) = Map.empty \<and>
   WriteFileSync ''/tmp/person_4.jpg'' [1] \<in>
     set (trace (snd (performTryOn_tempfile ex_env ''https://x/p.jpg'' ''https://x/g.jpg'' fresh_world))) \<and>
   WriteFileSync ''/tmp/garment_7.jpg'' [2] \<in>
     set (trace (snd (performTryOn_tempfile ex_env ''https://x/p.jpg'' ''https://x/g.jpg'' fresh_world))) \<and>
   files (snd (performTryOn_tempfile ex_env ''https://x/p.jpg'' ''https://x/g.jpg'' fresh_world)) = Map.empty \<and>
   fst (fst (attempt_tempfile ex_env ''https://x/p.jpg'' ''https://x/g.jpg'' fresh_world)) =
     Inr (Success [3, 4] 9)"
proof -
  have ok: "\<forall>h. unlink_error ex_env h = None" by (simp add: ex_env_def)
  have ok': "\<forall>h e. unlink_error ex_env h = Some e \<longrightarrow> \<not> nullish e" by (simp add: ex_env_def)
  have wr: "\<forall>h e n. writeFile_outcome ex_env h \<noteq> WriteFailed e n" by (simp add: ex_env_def)
  note inst = temp_files_removed [of ex_env "''https://x/p.jpg''" "''https://x/g.jpg''"
      fresh_state fresh_world]
  from inst have a:
    "files (snd (performTryOn ex_env ''https://x/p.jpg'' ''https://x/g.jpg'' fresh_state)) = Map.empty"
    by (simp add: fresh_state_def)
  from inst ok wr have
    "files (snd (performTryOn_tempfile ex_env ''https://x/p.jpg'' ''https://x/g.jpg'' fresh_world))
       \<subseteq>\<^sub>m Map.empty"
    by (simp add: fresh_world_def)
  then have b:
    "files (snd (performTryOn_tempfile ex_env ''https://x/p.jpg'' ''https://x/g.jpg'' fresh_world))
       = Map.empty"
    by (rule map_le_antisym) simp
  from inst ok' have c:
    "fst (performTryOn_tempfile ex_env ''https://x/p.jpg'' ''https://x/g.jpg'' fresh_world) =
       fst (fst (attempt_tempfile ex_env ''https://x/p.jpg'' ''https://x/g.jpg'' fresh_world))"
    by blast
  from a b c ex_run_tempfile show ?thesis by simp
qed

text \<open>
  The claim as stated fails in two ways. Where the file system refuses a deletion, the
  first failure is caught, the second deletion is skipped, and both files stay, while the
  operation returns its success. And where the disk is full when the person image is
  written, the write leaves an empty file behind, the operation returns the failure, and
  no deletion is attempted at all.
\<close>

theorem temp_files_removed_counterexample:
  "fst (performTryOn_tempfile
          (ex_env\<lparr>unlink_error := \<lambda>h. Some (Error ''EPERM: operation not permitted'')\<rparr>)
          ''https://x/p.jpg'' ''https://x/g.jpg'' fresh_world) = Inr (Success [3, 4] 9) \<and>
   files (snd (performTryOn_tempfile
          (ex_env\<lparr>unlink_error := \<lambda>h. Some (Error ''EPERM: operation not permitted'')\<rparr>)
          ''https://x/p.jpg'' ''https://x/g.jpg'' fresh_world)) ''/tmp/person_4.jpg'' = Some [1] \<and>
   files (snd (performTryOn_tempfile
          (ex_env\<lparr>unlink_error := \<lambda>h. Some (Error ''EPERM: operation not permitted'')\<rparr>)
          ''https://x/p.jpg'' ''https://x/g.jpg'' fresh_world)) ''/tmp/garment_7.jpg'' = Some [2] \<and>
   files fresh_world ''/tmp/person_4.jpg'' = None \<and>
   files fresh_world ''/tmp/garment_7.jpg'' = None \<and>
   performTryOn_tempfile
     (ex_env\<lparr>writeFile_outcome := \<lambda>h. WriteFailed (Error ''ENOSPC: no space left on device'') 0\<rparr>)
     ''https://x/p.jpg'' ''https://x/g.jpg'' fresh_world =
     (Inr (Failure (JStr ''ENOSPC: no space left on device'') 5),
      \<lparr>trace =
         [DateNow,
          ClientConnect ''yisol/IDM-VTON'' (Some ''hf_abc''),
          AxiosGet (JStr ''https://x/p.jpg''),
          DateNow,
          WriteFileSync ''/tmp/person_4.jpg'' [1],
          DateNow],
       files = [''/tmp/person_4.jpg'' \<mapsto> []]\<rparr>)"
  by (simp add: run_tempfile_defs prim_defs ex_env_def fresh_world_def)

subsection \<open>The status probe\<close>




subsection \<open>The elapsed time\<close>

text \<open>
  C10, as the code has it. In every outcome of both listings \<^verbatim>\<open>processingTime\<close> is an
  integer: the last reading of the clock in the invocation minus its first reading, so it
  is not negative whenever the clock has not gone back between the two. On failure that
  last reading is taken in the handler, after every call of the attempt; in the first
  listing it is the last event of the invocation, in the second only the deletions of the
  temporary files follow it. On success the reading is taken as soon as \<^verbatim>\<open>/tryon\<close> has
  returned, before the result is normalized: the fetch or read of the result image, and
  in the second listing the deletions, come after it and are not counted.
\<close>

theorem processing_time_measured:
  "(performTryOn env p g s = (Inr r, s') \<longrightarrow>
      (clock env (trace s @ [DateNow]) \<le> clock env (through_last_clock (trace s')) \<longrightarrow>
         0 \<le> processingTime r) \<and>
      processingTime r =
        clock env (through_last_clock (trace s')) - clock env (trace s @ [DateNow]) \<and>
      (\<forall>m t. r = Failure m t \<longrightarrow> through_last_clock (trace s') = trace s') \<and>
      (\<forall>b t. r = Success b t \<longrightarrow>
         (\<exists>pre c a post.
            through_last_clock (trace s') = pre @ [Predict c ''/tryon'' a, DateNow] \<and>
            trace s' = through_last_clock (trace s') @ post \<and>
            (\<forall>e \<in> set post. (\<exists>u. e = AxiosGet u) \<or> (\<exists>u. e = ReadFileSync u))))) \<and>
   (performTryOn_tempfile env p g w = (Inr r', w') \<longrightarrow>
      (clock env (trace w @ [DateNow]) \<le> clock env (through_last_clock (trace w')) \<longrightarrow>
         0 \<le> processingTime r') \<and>
      processingTime r' =
        clock env (through_last_clock (trace w')) - clock env (trace w @ [DateNow]) \<and>
      (\<forall>m t. r' = Failure m t \<longrightarrow>
         (\<exists>post. trace w' = through_last_clock (trace w') @ post \<and>
            (\<forall>e \<in> set post. \<exists>x. e = UnlinkSync x))) \<and>
      (\<forall>b t. r' = Success b t \<longrightarrow>
         (\<exists>pre c a post.
            through_last_clock (trace w') = pre @ [Predict c ''/tryon'' a, DateNow] \<and>
            trace w' = through_last_clock (trace w') @ post \<and>
            (\<forall>e \<in> set post.
               (\<exists>u. e = AxiosGet u) \<or> (\<exists>u. e = ReadFileSync u) \<or> (\<exists>x. e = UnlinkSync x)))))"
  (is "(?runA \<longrightarrow> ?NA \<and> ?SA) \<and> (?runB \<longrightarrow> ?NB \<and> ?SB)")
proof -
  have A: "?SA" if "?runA" using that by (rule processing_time_first)
  have B: "?SB" if "?runB" using that by (rule processing_time_second)
  have NA: "?NA" if "?runA" using conjunct1 [OF A [OF that]] by simp
  have NB: "?NB" if "?runB" using conjunct1 [OF B [OF that]] by simp
  from A B NA NB show ?thesis by blast
qed

text \<open>
  The sample run of the first listing: the clock counts the calls, the readings are 1 and
  6, and the fetch of the result image is the seventh call.
\<close>

theorem processing_time_measured_witness:
  "through_last_clock (trace served_state) = butlast (trace served_state) \<and>
   processingTime (Success [3, 4] 5) =
     clock ex_env (butlast (trace served_state)) - clock ex_env (trace fresh_state @ [DateNow]) \<and>
   0 \<le> processingTime (Success [3, 4] 5)"
proof -
  have run: "performTryOn ex_env ''https://x/p.jpg'' ''https://x/g.jpg'' fresh_state =
      (Inr (Success [3, 4] 5), served_state)"
    by (simp add: ex_run served_state_def)
  have tl: "through_last_clock (trace served_state) = butlast (trace served_state)"
    by (simp add: through_last_clock_def served_state_def)
  have le: "clock ex_env (trace fresh_state @ [DateNow])
      \<le> clock ex_env (through_last_clock (trace served_state))"
    by (simp add: through_last_clock_def served_state_def ex_env_def fresh_state_def)
  from processing_time_measured [of ex_env "''https://x/p.jpg''" "''https://x/g.jpg''"
      fresh_state "Success [3, 4] 5" served_state] run le tl
  show ?thesis by simp
qed

text \<open>
  The claim as stated fails twice. With a clock that steps back between the two readings
  (here it counts down), the elapsed time is negative. And in the successful sample run
  the reading that is used is not taken at the end of the operation: the fetch of the
  result image follows it, so the time returned is 5 where the clock stands at 7 against 1
  when the operation ends.
\<close>

theorem processing_time_measured_counterexample:
  "fst (performTryOn (ex_env\<lparr>clock := \<lambda>h. 10 - int (length h)\<rparr>)
          ''https://x/p.jpg'' ''https://x/g.jpg'' fresh_state) = Inr (Success [3, 4] (- 5)) \<and>
   performTryOn ex_env ''https://x/p.jpg'' ''https://x/g.jpg'' fresh_state =
     (Inr (Success [3, 4] 5), served_state) \<and>
   last (trace served_state) = AxiosGet (JStr ''https://x/out.jpg'') \<and>
   clock ex_env (trace served_state) - clock ex_env (trace fresh_state @ [DateNow]) = 6"
  by (simp add: run_defs prim_defs ex_env_def fresh_state_def served_state_def)

end
